theory Spec2Isabelle
  imports Main
begin

section \<open>Edit scripts and the live diff view\<close>

text \<open>
  An edit script is the array the diff library hands back: pairs of an operation code
  and the text it covers. The operation codes are the library's exported constants; the
  hook's own filters (\<open>d[0] === 1\<close> for an addition, \<open>d[0] === -1\<close> for a deletion) give
  the first two, and an equality is 0.
\<close>

type_synonym diff = "int \<times> string"

definition DIFF_DELETE :: int where
  "DIFF_DELETE = - 1"

definition DIFF_INSERT :: int where
  "DIFF_INSERT = 1"

definition DIFF_EQUAL :: int where
  "DIFF_EQUAL = 0"

fun commonPrefix :: "string \<Rightarrow> string \<Rightarrow> string" where
  \<comment> \<open>Modelled from the spec: a helper of \<open>diff_main\<close> below, the longest common prefix
      of the two texts.\<close>
  "commonPrefix (x # xs) (y # ys) = (if x = y then x # commonPrefix xs ys else [])"
| "commonPrefix _ _ = []"

definition commonSuffix :: "string \<Rightarrow> string \<Rightarrow> string" where
  \<comment> \<open>Modelled from the spec: a helper of \<open>diff_main\<close> below, the longest common suffix
      of the two texts.\<close>
  "commonSuffix a b = rev (commonPrefix (rev a) (rev b))"

definition diff_main :: "string \<Rightarrow> string \<Rightarrow> diff list" where
  \<comment> \<open>Modelled from the spec: the diff-match-patch package that \<open>LiveDiffView.tsx\<close> and
      \<open>usePrompts.ts\<close> import is not among the sources. Section 4.1 of the spec fixes
      what \<open>computeDiff\<close> returns: an ordered sequence of equal, insert and delete spans
      covering both texts exactly, larger chunks preferred; one insert for an empty old
      text, one delete for an empty new text, one equal span for identical texts and the
      empty script for two empty texts. This is the plainest script with those
      properties: the common prefix and suffix as equal spans, the differing middle as
      one delete followed by one insert.\<close>
  "diff_main text1 text2 =
     (if text1 = text2 then (if text1 = [] then [] else [(DIFF_EQUAL, text1)])
      else
        let pre = commonPrefix text1 text2;
            rest1 = drop (length pre) text1;
            rest2 = drop (length pre) text2;
            suf = commonSuffix rest1 rest2;
            mid1 = take (length rest1 - length suf) rest1;
            mid2 = take (length rest2 - length suf) rest2
        in (if pre = [] then [] else [(DIFF_EQUAL, pre)])
         @ (if mid1 = [] then [] else [(DIFF_DELETE, mid1)])
         @ (if mid2 = [] then [] else [(DIFF_INSERT, mid2)])
         @ (if suf = [] then [] else [(DIFF_EQUAL, suf)]))"

fun diff_cleanupSemantic :: "diff list \<Rightarrow> diff list" where
  \<comment> \<open>Modelled from the spec: the library function is not among the sources. Section 4.1
      asks of the semantic cleanup that adjacent spans of one tag are merged; empty spans
      vanish with it. The library rewrites the array in place; the model returns it.\<close>
  "diff_cleanupSemantic [] = []"
| "diff_cleanupSemantic ((op, d) # ds) =
     (if d = [] then diff_cleanupSemantic ds
      else (case diff_cleanupSemantic ds of
              [] \<Rightarrow> [(op, d)]
            | (op', d') # rest \<Rightarrow>
                if op = op' then (op, d @ d') # rest else (op, d) # (op', d') # rest))"

text \<open>
  \<open>LiveDiffView\<close> maps every operation of the cleaned script to one HTML element:
  \<open>ins\<close> for an insertion, \<open>del\<close> for a deletion, \<open>span\<close> for an equality and for any
  other operation code (the \<open>default\<close> branch). The element's key carries the index.
\<close>

datatype element = Ins | Del | Span

record span =
  s_element :: element
  s_index :: nat
  s_data :: string

definition digit_char :: "nat \<Rightarrow> char" where
  "digit_char n = ''0123456789'' ! (n mod 10)"

fun nat_to_string :: "nat \<Rightarrow> string" where
  "nat_to_string n =
     (if n < 10 then [digit_char n] else nat_to_string (n div 10) @ [digit_char n])"

declare nat_to_string.simps [simp del]

definition render_diff :: "nat \<Rightarrow> diff \<Rightarrow> span" where
  "render_diff index d =
     (if fst d = DIFF_INSERT then \<lparr>s_element = Ins, s_index = index, s_data = snd d\<rparr>
      else if fst d = DIFF_DELETE then \<lparr>s_element = Del, s_index = index, s_data = snd d\<rparr>
      else if fst d = DIFF_EQUAL then \<lparr>s_element = Span, s_index = index, s_data = snd d\<rparr>
      else \<lparr>s_element = Span, s_index = index, s_data = snd d\<rparr>)"

definition span_html :: "span \<Rightarrow> string" where
  \<open>span_html s =
     (case s_element s of
        Ins \<Rightarrow> ''<ins class="diff-ins" key="diff-'' @ nat_to_string (s_index s) @ ''">''
                @ s_data s @ ''</ins>''
      | Del \<Rightarrow> ''<del class="diff-del" key="diff-'' @ nat_to_string (s_index s) @ ''">''
                @ s_data s @ ''</del>''
      | Span \<Rightarrow> ''<span key="diff-'' @ nat_to_string (s_index s) @ ''">''
                @ s_data s @ ''</span>'')\<close>

definition LiveDiffView_spans :: "string \<Rightarrow> string \<Rightarrow> span list" where
  "LiveDiffView_spans oldContent newContent =
     (let diffs = diff_cleanupSemantic (diff_main oldContent newContent)
      in map (\<lambda>(index, d). render_diff index d) (enumerate 0 diffs))"

definition diffHtml :: "string \<Rightarrow> string \<Rightarrow> string" where
  "diffHtml oldContent newContent =
     concat (map span_html (LiveDiffView_spans oldContent newContent))"

text \<open>The two readings of a rendered sequence: the new text and the old text.\<close>

definition spans_new :: "span list \<Rightarrow> string" where
  "spans_new ss = concat (map s_data (filter (\<lambda>s. s_element s \<noteq> Del) ss))"

definition spans_old :: "span list \<Rightarrow> string" where
  "spans_old ss = concat (map s_data (filter (\<lambda>s. s_element s \<noteq> Ins) ss))"

definition ins_text :: "span list \<Rightarrow> string" where
  \<comment> \<open>What the component's tests read: the text of all \<open>.diff-ins\<close> elements.\<close>
  "ins_text ss = concat (map s_data (filter (\<lambda>s. s_element s = Ins) ss))"

definition del_text :: "span list \<Rightarrow> string" where
  \<comment> \<open>The text of all \<open>.diff-del\<close> elements.\<close>
  "del_text ss = concat (map s_data (filter (\<lambda>s. s_element s = Del) ss))"

definition script_new :: "diff list \<Rightarrow> string" where
  "script_new ds = concat (map snd (filter (\<lambda>d. fst d \<noteq> DIFF_DELETE) ds))"

definition script_old :: "diff list \<Rightarrow> string" where
  "script_old ds = concat (map snd (filter (\<lambda>d. fst d \<noteq> DIFF_INSERT) ds))"


section \<open>The store behind \<open>usePrompts\<close>\<close>

text \<open>
  The tables the hook reads and writes. Identifiers are the store's UUIDs, drawn from a
  counter here. A column that the hook may leave out of an insert is nullable. The
  \<open>prompts\<close> table is keyed by its primary key; timestamps and the joined creator
  record are left out.
\<close>

type_synonym uuid = nat

type_synonym json_object = "(string \<times> string) list"

datatype status = Draft | Active | Deprecated

datatype visibility = Private | Public

record prompt =
  p_title :: "string option"
  p_body :: "string option"
  p_metadata :: "json_object option"
  p_creator_id :: uuid
  p_status :: status
  p_visibility :: visibility
  p_forked_from :: "uuid option"
  p_fork_version :: "nat option"

record tag =
  t_id :: uuid
  t_name :: string

text \<open>
  What a version's \<open>content\<close> column can hold: the hook writes a body string (or the
  null body of a forked prompt); the restore handler of the editor page reads an object
  with a body, a title, tags, a model and a parallel text.
\<close>

record snapshot =
  sn_body :: string
  sn_title :: string
  sn_tags :: "tag list"
  sn_model :: string
  sn_parallelText :: string

datatype content = JNull | JString string | JObject snapshot

record version =
  v_id :: uuid
  v_prompt_id :: uuid
  v_branch_id :: "uuid option"
  v_content :: content
  v_version_number :: nat
  v_is_latest :: bool
  v_change_log :: string
  v_parent_version_id :: "uuid option"
  v_metadata :: json_object

text \<open>
  The world a mutation runs in: the four tables, the UUID counter, and the two output
  channels the hook writes to (toasts shown to the user, lines of \<open>console.error\<close>,
  without the error object). The store is used by one mutation at a time. Version numbers
  are natural numbers: the hook adds 1 to an integer column, far below the bound where
  JavaScript numbers stop being exact.
\<close>

record world =
  prompts :: "uuid \<rightharpoonup> prompt"
  tags :: "tag list"
  prompt_tags :: "(uuid \<times> uuid) list"
  prompt_versions :: "version list"
  next_uuid :: uuid
  toasts :: "string list"
  console :: "string list"

text \<open>
  What a mutation cannot decide itself: who is signed in, and which calls to the store
  come back with an error. Each call site has its own switch; the tag calls are switched
  by their arguments.
\<close>

record env =
  user :: "uuid option"
  fail_prompts_insert :: bool
  fail_prompts_update :: bool
  fail_prompts_select :: bool
  fail_body_select :: bool
  fail_tags_upsert :: "string \<Rightarrow> bool"
  fail_prompt_tags_insert :: "uuid \<Rightarrow> uuid \<Rightarrow> bool"
  fail_prompt_tags_delete :: bool
  fail_versions_select :: bool
  fail_versions_insert :: bool
  fail_versions_update :: bool

datatype error = JsError string | StoreError string

definition PGRST116 :: error where
  \<comment> \<open>What \<open>.single()\<close> answers when the query has no row.\<close>
  "PGRST116 = StoreError ''PGRST116''"

definition store_failure :: error where
  "store_failure = StoreError ''failure''"

definition console_error :: "string \<Rightarrow> world \<Rightarrow> world" where
  "console_error msg w = w\<lparr>console := console w @ [msg]\<rparr>"

definition toast_error :: "string \<Rightarrow> world \<Rightarrow> world" where
  "toast_error msg w = w\<lparr>toasts := toasts w @ [msg]\<rparr>"

subsection \<open>Store calls\<close>

definition insert_prompt :: "env \<Rightarrow> world \<Rightarrow> prompt \<Rightarrow> error + (world \<times> uuid \<times> prompt)" where
  "insert_prompt e w row =
     (if fail_prompts_insert e then Inl store_failure
      else Inr (w\<lparr>prompts := (prompts w)(next_uuid w \<mapsto> row), next_uuid := Suc (next_uuid w)\<rparr>,
                next_uuid w, row))"

definition select_prompt :: "env \<Rightarrow> world \<Rightarrow> uuid \<Rightarrow> error + (world \<times> prompt)" where
  "select_prompt e w i =
     (if fail_prompts_select e then Inl store_failure
      else (case prompts w i of None \<Rightarrow> Inl PGRST116 | Some row \<Rightarrow> Inr (w, row)))"

text \<open>
  The fields of a \<open>Partial<Prompt>\<close>: an absent key is \<open>None\<close>. \<open>createPrompt\<close> and
  \<open>updatePrompt\<close> take them next to the tag names.
\<close>

record prompt_fields =
  f_title :: "string option"
  f_body :: "string option"
  f_metadata :: "json_object option"
  f_creator_id :: "uuid option"
  f_status :: "status option"
  f_visibility :: "visibility option"
  f_forked_from :: "uuid option"
  f_fork_version :: "nat option"

definition has_keys :: "prompt_fields \<Rightarrow> bool" where
  \<comment> \<open>\<open>Object.keys(promptFieldsToUpdate).length > 0\<close>\<close>
  "has_keys f \<longleftrightarrow>
     f_title f \<noteq> None \<or> f_body f \<noteq> None \<or> f_metadata f \<noteq> None \<or> f_creator_id f \<noteq> None \<or>
     f_status f \<noteq> None \<or> f_visibility f \<noteq> None \<or> f_forked_from f \<noteq> None \<or>
     f_fork_version f \<noteq> None"

definition apply_fields :: "prompt_fields \<Rightarrow> prompt \<Rightarrow> prompt" where
  "apply_fields f row =
     \<lparr>p_title = (case f_title f of None \<Rightarrow> p_title row | Some x \<Rightarrow> Some x),
      p_body = (case f_body f of None \<Rightarrow> p_body row | Some x \<Rightarrow> Some x),
      p_metadata = (case f_metadata f of None \<Rightarrow> p_metadata row | Some x \<Rightarrow> Some x),
      p_creator_id = (case f_creator_id f of None \<Rightarrow> p_creator_id row | Some x \<Rightarrow> x),
      p_status = (case f_status f of None \<Rightarrow> p_status row | Some x \<Rightarrow> x),
      p_visibility = (case f_visibility f of None \<Rightarrow> p_visibility row | Some x \<Rightarrow> x),
      p_forked_from = (case f_forked_from f of None \<Rightarrow> p_forked_from row | Some x \<Rightarrow> Some x),
      p_fork_version = (case f_fork_version f of None \<Rightarrow> p_fork_version row | Some x \<Rightarrow> Some x)\<rparr>"

definition update_prompt :: "env \<Rightarrow> world \<Rightarrow> uuid \<Rightarrow> prompt_fields \<Rightarrow> error + (world \<times> prompt)" where
  "update_prompt e w i f =
     (if fail_prompts_update e then Inl store_failure
      else (case prompts w i of
              None \<Rightarrow> Inl PGRST116
            | Some row \<Rightarrow>
                Inr (w\<lparr>prompts := (prompts w)(i \<mapsto> apply_fields f row)\<rparr>, apply_fields f row)))"

definition select_body :: "env \<Rightarrow> world \<Rightarrow> uuid \<Rightarrow> string option" where
  \<comment> \<open>\<open>(await ... select('body') ... single()).data?.body\<close>: nothing when the call
      fails, when there is no row, and when the body is null.\<close>
  "select_body e w i =
     (if fail_body_select e then None
      else (case prompts w i of None \<Rightarrow> None | Some row \<Rightarrow> p_body row))"

definition upsert_tag :: "env \<Rightarrow> world \<Rightarrow> string \<Rightarrow> world \<times> (error + tag)" where
  \<comment> \<open>\<open>upsert({name}, {onConflict: 'name'}).select('id, name').single()\<close>\<close>
  "upsert_tag e w n =
     (if fail_tags_upsert e n then (w, Inl store_failure)
      else (case find (\<lambda>t. t_name t = n) (tags w) of
              Some t \<Rightarrow> (w, Inr t)
            | None \<Rightarrow>
                (w\<lparr>tags := tags w @ [\<lparr>t_id = next_uuid w, t_name = n\<rparr>],
                   next_uuid := Suc (next_uuid w)\<rparr>,
                 Inr \<lparr>t_id = next_uuid w, t_name = n\<rparr>)))"

definition insert_prompt_tag :: "env \<Rightarrow> world \<Rightarrow> uuid \<Rightarrow> uuid \<Rightarrow> world \<times> (error + unit)" where
  "insert_prompt_tag e w pid tid =
     (if fail_prompt_tags_insert e pid tid then (w, Inl store_failure)
      else (w\<lparr>prompt_tags := prompt_tags w @ [(pid, tid)]\<rparr>, Inr ()))"

definition delete_prompt_tags :: "env \<Rightarrow> world \<Rightarrow> uuid \<Rightarrow> world \<times> (error + unit)" where
  "delete_prompt_tags e w pid =
     (if fail_prompt_tags_delete e then (w, Inl store_failure)
      else (w\<lparr>prompt_tags := filter (\<lambda>l. fst l \<noteq> pid) (prompt_tags w)\<rparr>, Inr ()))"

definition tags_of_prompt :: "world \<Rightarrow> uuid \<Rightarrow> tag list" where
  \<comment> \<open>The join \<open>prompt_tags!left(tags!inner(id, name))\<close> of one prompt, mapped to its
      tags.\<close>
  "tags_of_prompt w pid =
     concat (map (\<lambda>l. if fst l = pid then filter (\<lambda>t. t_id t = snd l) (tags w) else [])
                 (prompt_tags w))"

definition select_prompt_with_tags ::
  "env \<Rightarrow> world \<Rightarrow> uuid \<Rightarrow> error + (prompt \<times> tag list)" where
  "select_prompt_with_tags e w i =
     (if fail_prompts_select e then Inl store_failure
      else (case prompts w i of
              None \<Rightarrow> Inl PGRST116
            | Some row \<Rightarrow> Inr (row, tags_of_prompt w i)))"

fun highest_version :: "version list \<Rightarrow> version option" where
  \<comment> \<open>The first row of \<open>order('version_number', {ascending: false})\<close>. The store does
      not say which of two rows with one number comes first; the model takes the one
      inserted first.\<close>
  "highest_version [] = None"
| "highest_version (v # vs) =
     (case highest_version vs of
        None \<Rightarrow> Some v
      | Some m \<Rightarrow> if v_version_number v < v_version_number m then Some m else Some v)"

definition select_latest_version :: "env \<Rightarrow> world \<Rightarrow> uuid \<Rightarrow> error + version" where
  \<comment> \<open>\<open>.eq('prompt_id', id).order('version_number', {ascending: false}).limit(1).single()\<close>:
      the row of the prompt with the highest number, whatever its branch.\<close>
  "select_latest_version e w i =
     (if fail_versions_select e then Inl store_failure
      else (case highest_version (filter (\<lambda>v. v_prompt_id v = i) (prompt_versions w)) of
              None \<Rightarrow> Inl PGRST116
            | Some l \<Rightarrow> Inr l))"

definition fetched_latest :: "env \<Rightarrow> world \<Rightarrow> uuid \<Rightarrow> version option" where
  \<comment> \<open>The \<open>data\<close> of that answer: null when the call failed or found no row.\<close>
  "fetched_latest e w i =
     (case select_latest_version e w i of Inl err \<Rightarrow> None | Inr l \<Rightarrow> Some l)"

definition insert_version :: "env \<Rightarrow> world \<Rightarrow> version \<Rightarrow> world \<times> (error + unit)" where
  \<comment> \<open>The store assigns the row's id.\<close>
  "insert_version e w row =
     (if fail_versions_insert e then (w, Inl store_failure)
      else (w\<lparr>prompt_versions := prompt_versions w @ [row\<lparr>v_id := next_uuid w\<rparr>],
              next_uuid := Suc (next_uuid w)\<rparr>, Inr ()))"

definition demote :: "uuid \<Rightarrow> version \<Rightarrow> version" where
  \<comment> \<open>\<open>update({is_latest: false}).eq('id', vid)\<close> on one row.\<close>
  "demote vid v = (if v_id v = vid then v\<lparr>v_is_latest := False\<rparr> else v)"

definition demote_version :: "env \<Rightarrow> world \<Rightarrow> uuid \<Rightarrow> world" where
  \<comment> \<open>The demotion of the previous latest version; the hook does not look at the
      answer of this call.\<close>
  "demote_version e w vid =
     (if fail_versions_update e then w
      else w\<lparr>prompt_versions := map (demote vid) (prompt_versions w)\<rparr>)"


section \<open>The mutations of \<open>usePrompts\<close>\<close>

text \<open>
  A mutation takes the environment and the world and either throws (\<open>Inl\<close>; it throws
  only before its first write, so the world is then the one it started from) or returns
  the world it leaves behind together with its result.
\<close>

fun upsert_and_link_tags ::
  "env \<Rightarrow> uuid \<Rightarrow> string list \<Rightarrow> world \<times> tag list \<Rightarrow> world \<times> tag list" where
  \<comment> \<open>The loop over \<open>newTags\<close> in \<open>createPrompt\<close> and in \<open>updatePrompt\<close>: a failed
      upsert is logged and skipped; a failed link is logged and the tag still counted.\<close>
  "upsert_and_link_tags e pid [] (w, acc) = (w, acc)"
| "upsert_and_link_tags e pid (n # ns) (w, acc) =
     (case upsert_tag e w n of
        (w1, Inl err) \<Rightarrow>
          upsert_and_link_tags e pid ns (console_error ''Error upserting tag:'' w1, acc)
      | (w1, Inr tagData) \<Rightarrow>
          (case insert_prompt_tag e w1 pid (t_id tagData) of
             (w2, Inl err) \<Rightarrow>
               upsert_and_link_tags e pid ns
                 (console_error ''Error creating prompt_tag link:'' w2, acc @ [tagData])
           | (w2, Inr u) \<Rightarrow> upsert_and_link_tags e pid ns (w2, acc @ [tagData])))"

definition initial_version :: "uuid \<Rightarrow> content \<Rightarrow> string \<Rightarrow> version" where
  \<comment> \<open>The row both \<open>createPrompt\<close> and \<open>forkPrompt\<close> insert; the columns they do not
      name (\<open>branch_id\<close>, \<open>parent_version_id\<close>) stay null. The id is filled in by the
      store.\<close>
  "initial_version pid c log =
     \<lparr>v_id = 0, v_prompt_id = pid, v_branch_id = None, v_content = c, v_version_number = 1,
      v_is_latest = True, v_change_log = log, v_parent_version_id = None, v_metadata = []\<rparr>"

definition promptData :: "uuid \<Rightarrow> prompt_fields \<Rightarrow> prompt" where
  \<comment> \<open>\<open>{...promptFields, creator_id: user.id, status: newPrompt.status || 'draft',
      visibility: newPrompt.visibility || 'private'}\<close>\<close>
  "promptData uid newPrompt =
     \<lparr>p_title = f_title newPrompt, p_body = f_body newPrompt,
      p_metadata = f_metadata newPrompt, p_creator_id = uid,
      p_status = (case f_status newPrompt of None \<Rightarrow> Draft | Some x \<Rightarrow> x),
      p_visibility = (case f_visibility newPrompt of None \<Rightarrow> Private | Some x \<Rightarrow> x),
      p_forked_from = f_forked_from newPrompt,
      p_fork_version = f_fork_version newPrompt\<rparr>"

definition createPrompt ::
  "env \<Rightarrow> world \<Rightarrow> prompt_fields \<Rightarrow> string list option
     \<Rightarrow> error + (world \<times> uuid \<times> prompt \<times> tag list)" where
  "createPrompt e w newPrompt newTags =
     (case user e of
        None \<Rightarrow> Inl (JsError ''User must be authenticated'')
      | Some uid \<Rightarrow>
          (case insert_prompt e w (promptData uid newPrompt) of
             Inl promptError \<Rightarrow> Inl promptError
           | Inr (w1, pid, createdPrompt) \<Rightarrow>
               let (w2, createdTagObjects) =
                     (case newTags of
                        None \<Rightarrow> (w1, [])
                      | Some ns \<Rightarrow> upsert_and_link_tags e pid ns (w1, []));
                   bodyForVersion = (case f_body newPrompt of None \<Rightarrow> [] | Some b \<Rightarrow> b);
                   w3 = (case insert_version e w2
                                (initial_version pid (JString bodyForVersion) ''Initial version.'') of
                           (w', Inl versionError) \<Rightarrow>
                             toast_error ''Prompt created, but failed to create initial version.''
                               (console_error ''Failed to create initial prompt version:'' w')
                         | (w', Inr u) \<Rightarrow> w')
               in Inr (w3, pid, createdPrompt, createdTagObjects)))"

definition body_changed :: "string option \<Rightarrow> string option \<Rightarrow> bool" where
  \<comment> \<open>\<open>newBody && bodyForComparison && newBody !== bodyForComparison\<close>: an absent and
      an empty string are both falsy.\<close>
  "body_changed newBody bodyForComparison \<longleftrightarrow>
     (case newBody of
        None \<Rightarrow> False
      | Some nb \<Rightarrow>
          (case bodyForComparison of
             None \<Rightarrow> False
           | Some bc \<Rightarrow> nb \<noteq> [] \<and> bc \<noteq> [] \<and> nb \<noteq> bc))"

definition change_log_of :: "diff list \<Rightarrow> string" where
  "change_log_of diffs =
     (let additions = length (filter (\<lambda>d. fst d = 1) diffs);
          deletions = length (filter (\<lambda>d. fst d = - 1) diffs)
      in ''Updated body. '' @ nat_to_string additions @ '' additions, ''
         @ nat_to_string deletions @ '' deletions.'')"

definition commit_new_version :: "env \<Rightarrow> world \<Rightarrow> uuid \<Rightarrow> string \<Rightarrow> string \<Rightarrow> world" where
  \<comment> \<open>The body of the \<open>if\<close> in step 3 of \<open>updatePrompt\<close>.\<close>
  "commit_new_version e w i newBody bodyForComparison =
     (let diffs = diff_cleanupSemantic (diff_main bodyForComparison newBody);
          change_log = change_log_of diffs;
          (w1, latestVersion) =
             (case select_latest_version e w i of
                Inl latestVersionError \<Rightarrow>
                  (if latestVersionError \<noteq> PGRST116
                   then console_error ''Error fetching latest version:'' w else w, None)
              | Inr l \<Rightarrow> (w, Some l));
          newVersionNumber =
             (case latestVersion of None \<Rightarrow> 1 | Some l \<Rightarrow> v_version_number l + 1)
      in (case insert_version e w1
                 \<lparr>v_id = 0, v_prompt_id = i, v_branch_id = None, v_content = JString newBody,
                  v_version_number = newVersionNumber, v_is_latest = True,
                  v_change_log = change_log,
                  v_parent_version_id = map_option v_id latestVersion, v_metadata = []\<rparr> of
            (w2, Inl createVersionError) \<Rightarrow>
              toast_error ''Prompt updated, but failed to create new version.''
                (console_error ''Failed to create new prompt version:'' w2)
          | (w2, Inr u) \<Rightarrow>
              (case latestVersion of
                 None \<Rightarrow> w2
               | Some l \<Rightarrow> demote_version e w2 (v_id l))))"

definition updatePrompt_versioning ::
  "env \<Rightarrow> world \<Rightarrow> uuid \<Rightarrow> string option \<Rightarrow> string option \<Rightarrow> world" where
  \<comment> \<open>Step 3 of \<open>updatePrompt\<close>, from the guard on (\<open>newBody\<close> and
      \<open>bodyForComparison\<close> are the two constants read just before it).\<close>
  "updatePrompt_versioning e w i newBody bodyForComparison =
     (if body_changed newBody bodyForComparison
      then commit_new_version e w i (the newBody) (the bodyForComparison)
      else w)"

definition updatePrompt ::
  "env \<Rightarrow> world \<Rightarrow> uuid \<Rightarrow> prompt_fields \<Rightarrow> string list option
     \<Rightarrow> error + (world \<times> prompt \<times> tag list option)" where
  "updatePrompt e w i promptFieldsToUpdate newTags =
     (case user e of
        None \<Rightarrow> Inl (JsError ''User must be authenticated'')
      | Some uid \<Rightarrow>
          (case (if has_keys promptFieldsToUpdate
                 then update_prompt e w i promptFieldsToUpdate
                 else select_prompt e w i) of
             Inl promptUpdateError \<Rightarrow> Inl promptUpdateError
           | Inr (w1, updatedPromptData) \<Rightarrow>
               let (w2, processedTags) =
                     (case newTags of
                        None \<Rightarrow> (w1, None)
                      | Some ns \<Rightarrow>
                          let wd = (case delete_prompt_tags e w1 i of
                                      (w', Inl deleteError) \<Rightarrow>
                                        toast_error
                                          ''Error clearing old tags. Tag update may be incomplete.''
                                          (console_error ''Error deleting old prompt_tags:'' w')
                                    | (w', Inr u) \<Rightarrow> w');
                              (wt, ts) = upsert_and_link_tags e i ns (wd, [])
                          in (wt, Some ts));
                   bodyForComparison = select_body e w2 i;
                   newBody = f_body promptFieldsToUpdate;
                   w3 = updatePrompt_versioning e w2 i newBody bodyForComparison
               in Inr (w3, updatedPromptData, processedTags)))"

fun link_tags :: "env \<Rightarrow> uuid \<Rightarrow> tag list \<Rightarrow> world \<times> tag list \<Rightarrow> world \<times> tag list" where
  \<comment> \<open>The loop over the original prompt's tags in \<open>forkPrompt\<close>: the tags exist, so
      only the link rows are written.\<close>
  "link_tags e fid [] (w, acc) = (w, acc)"
| "link_tags e fid (t # ts) (w, acc) =
     (case insert_prompt_tag e w fid (t_id t) of
        (w1, Inl promptTagError) \<Rightarrow>
          link_tags e fid ts (console_error ''Error linking tag to forked prompt:'' w1, acc)
      | (w1, Inr u) \<Rightarrow> link_tags e fid ts (w1, acc @ [t]))"

definition template_string :: "string option \<Rightarrow> string" where
  \<comment> \<open>A nullable column inside a template literal.\<close>
  "template_string x = (case x of None \<Rightarrow> ''null'' | Some s \<Rightarrow> s)"

definition fork_title :: "string option \<Rightarrow> prompt \<Rightarrow> string" where
  \<comment> \<open>\<open>title || `${originalPrompt.title} (Fork)`\<close>\<close>
  "fork_title title originalPrompt =
     (case title of
        None \<Rightarrow> template_string (p_title originalPrompt) @ '' (Fork)''
      | Some t \<Rightarrow>
          if t \<noteq> [] then t else template_string (p_title originalPrompt) @ '' (Fork)'')"

definition json_of_body :: "string option \<Rightarrow> content" where
  "json_of_body b = (case b of None \<Rightarrow> JNull | Some s \<Rightarrow> JString s)"

definition forkPrompt ::
  "env \<Rightarrow> world \<Rightarrow> uuid \<Rightarrow> string option \<Rightarrow> error + (world \<times> uuid \<times> prompt \<times> tag list)" where
  "forkPrompt e w promptId title =
     (case user e of
        None \<Rightarrow> Inl (JsError ''User must be authenticated'')
      | Some uid \<Rightarrow>
          (case select_prompt_with_tags e w promptId of
             Inl fetchError \<Rightarrow> Inl fetchError
           | Inr (originalPrompt, originalTags) \<Rightarrow>
               (case insert_prompt e w
                       \<lparr>p_title = Some (fork_title title originalPrompt),
                        p_body = p_body originalPrompt,
                        p_metadata = p_metadata originalPrompt,
                        p_creator_id = uid, p_status = Draft, p_visibility = Private,
                        p_forked_from = Some promptId, p_fork_version = None\<rparr> of
                  Inl forkError \<Rightarrow> Inl forkError
                | Inr (w1, fid, forkedPrompt) \<Rightarrow>
                    let (w2, forkedTagObjects) = link_tags e fid originalTags (w1, []);
                        w3 = (case insert_version e w2
                                     (initial_version fid (json_of_body (p_body forkedPrompt))
                                        ''Initial version (forked).'') of
                                (w', Inl versionError) \<Rightarrow>
                                  toast_error ''Fork created, but failed to create initial version.''
                                    (console_error
                                       ''Failed to create initial version for forked prompt:'' w')
                              | (w', Inr u) \<Rightarrow> w')
                    in Inr (w3, fid, forkedPrompt, forkedTagObjects))))"

subsection \<open>Restoring a version in the editor\<close>

record editor =
  promptContent :: string
  originalContentForDiff :: string
  promptTitle :: string
  promptTags :: "(uuid \<times> string) list"
  selectedModel :: string
  parallelText :: string

definition onRestore :: "version \<Rightarrow> error + editor" where
  \<comment> \<open>The \<open>onRestore\<close> handler of \<open>PromptDetail\<close>: it reads \<open>version.content.body\<close>,
      \<open>.title\<close>, \<open>.tags\<close>, \<open>.model\<close> and \<open>.parallelText\<close>. On a content that is a
      string, \<open>version.content.tags\<close> is undefined and \<open>.map\<close> on it throws; on a null
      content the first property read throws.\<close>
  "onRestore v =
     (case v_content v of
        JObject c \<Rightarrow>
          Inr \<lparr>promptContent = sn_body c, originalContentForDiff = sn_body c,
               promptTitle = sn_title c,
               promptTags = map (\<lambda>t. (t_id t, t_name t)) (sn_tags c),
               selectedModel = sn_model c, parallelText = sn_parallelText c\<rparr>
      | JString s \<Rightarrow> Inl (JsError ''TypeError'')
      | JNull \<Rightarrow> Inl (JsError ''TypeError''))"

section \<open>Invariants of the version table\<close>

definition scope_versions :: "world \<Rightarrow> uuid \<Rightarrow> uuid option \<Rightarrow> version list" where
  \<comment> \<open>The lineage of a document on a branch (\<open>None\<close> is the main branch).\<close>
  "scope_versions w d b =
     filter (\<lambda>v. v_prompt_id v = d \<and> v_branch_id v = b) (prompt_versions w)"

definition one_latest :: "version list \<Rightarrow> bool" where
  \<comment> \<open>Exactly one version of the lineage is flagged latest, and it carries the highest
      number.\<close>
  "one_latest vs \<longleftrightarrow>
     length (filter v_is_latest vs) = 1 \<and>
     (\<forall>l \<in> set vs. v_is_latest l \<longrightarrow> (\<forall>x \<in> set vs. v_version_number x \<le> v_version_number l))"

definition gap_free :: "version list \<Rightarrow> bool" where
  \<comment> \<open>The numbers of the lineage, in the order of insertion, are 1, 2, 3, ...\<close>
  "gap_free vs \<longleftrightarrow> map v_version_number vs = [1..<Suc (length vs)]"

definition I1 :: "world \<Rightarrow> bool" where
  \<comment> \<open>Invariant I1 of the spec, for every lineage that has a version.\<close>
  "I1 w \<longleftrightarrow>
     (\<forall>v \<in> set (prompt_versions w).
        one_latest (scope_versions w (v_prompt_id v) (v_branch_id v)))"

definition I2 :: "world \<Rightarrow> bool" where
  \<comment> \<open>Invariant I2 of the spec, for every lineage that has a version.\<close>
  "I2 w \<longleftrightarrow>
     (\<forall>v \<in> set (prompt_versions w).
        gap_free (scope_versions w (v_prompt_id v) (v_branch_id v)))"


definition wf_world :: "world \<Rightarrow> bool" where
  \<comment> \<open>The integrity the store keeps by itself: the UUID counter is ahead of every
      identifier in use, identifiers are unique within a table (primary keys), and a
      version and a tag link belong to a prompt that exists (foreign keys).\<close>
  "wf_world w \<longleftrightarrow>
     (\<forall>i \<in> dom (prompts w). i < next_uuid w) \<and>
     (\<forall>v \<in> set (prompt_versions w). v_id v < next_uuid w \<and> v_prompt_id v \<in> dom (prompts w)) \<and>
     (\<forall>t \<in> set (tags w). t_id t < next_uuid w) \<and>
     (\<forall>l \<in> set (prompt_tags w). fst l \<in> dom (prompts w)) \<and>
     distinct (map v_id (prompt_versions w)) \<and>
     distinct (map t_id (tags w))"

definition world_after :: "error + (world \<times> 'a) \<Rightarrow> world \<Rightarrow> world" where
  \<comment> \<open>The world a mutation leaves behind when it was started in \<open>w\<close>: a mutation that
      throws has written nothing.\<close>
  "world_after r w = (case r of Inl err \<Rightarrow> w | Inr x \<Rightarrow> fst x)"

section \<open>Example worlds\<close>

text \<open>
  Concrete inputs on which the properties below are run: an environment in which a user
  is signed in and no call fails, its variants with one failing call, and a world that
  holds one prompt with one tag and its first version.
\<close>

definition env_ok :: env where
  "env_ok =
     \<lparr>user = Some 7, fail_prompts_insert = False, fail_prompts_update = False,
      fail_prompts_select = False, fail_body_select = False,
      fail_tags_upsert = (\<lambda>n. False), fail_prompt_tags_insert = (\<lambda>p t. False),
      fail_prompt_tags_delete = False, fail_versions_select = False,
      fail_versions_insert = False, fail_versions_update = False\<rparr>"

definition no_fields :: prompt_fields where
  "no_fields =
     \<lparr>f_title = None, f_body = None, f_metadata = None, f_creator_id = None,
      f_status = None, f_visibility = None, f_forked_from = None, f_fork_version = None\<rparr>"

definition greeting :: prompt where
  "greeting =
     \<lparr>p_title = Some ''Greeting'', p_body = Some ''Hello'',
      p_metadata = Some [(''model'', ''GPT-4'')], p_creator_id = 7, p_status = Active,
      p_visibility = Public, p_forked_from = None, p_fork_version = None\<rparr>"

definition greeting_v1 :: version where
  "greeting_v1 =
     \<lparr>v_id = 3, v_prompt_id = 1, v_branch_id = None, v_content = JString ''Hello'',
      v_version_number = 1, v_is_latest = True, v_change_log = ''Initial version.'',
      v_parent_version_id = None, v_metadata = []\<rparr>"

definition world_hello :: world where
  "world_hello =
     \<lparr>prompts = [1 \<mapsto> greeting], tags = [\<lparr>t_id = 2, t_name = ''gpt4''\<rparr>],
      prompt_tags = [(1, 2)], prompt_versions = [greeting_v1], next_uuid = 4,
      toasts = [], console = []\<rparr>"

definition env_no_version_insert :: env where
  "env_no_version_insert = env_ok\<lparr>fail_versions_insert := True\<rparr>"


definition env_no_version_update :: env where
  "env_no_version_update = env_ok\<lparr>fail_versions_update := True\<rparr>"

definition world_branched :: world where
  \<comment> \<open>The greeting with two more versions on a feature branch.\<close>
  "world_branched =
     world_hello
       \<lparr>prompt_versions :=
          [greeting_v1,
           \<lparr>v_id = 4, v_prompt_id = 1, v_branch_id = Some 9, v_content = JString ''Hi'',
            v_version_number = 1, v_is_latest = False, v_change_log = ''Branched.'',
            v_parent_version_id = Some 3, v_metadata = []\<rparr>,
           \<lparr>v_id = 5, v_prompt_id = 1, v_branch_id = Some 9, v_content = JString ''Hi there'',
            v_version_number = 2, v_is_latest = True, v_change_log = ''Extended.'',
            v_parent_version_id = Some 4, v_metadata = []\<rparr>],
        next_uuid := 6\<rparr>"

section \<open>Properties of the edit script\<close>

lemma nat_to_string_small: "n < 10 \<Longrightarrow> nat_to_string n = [digit_char n]"
  by (simp add: nat_to_string.simps)

lemma commonPrefix_take1: "take (length (commonPrefix a b)) a = commonPrefix a b"
  by (induction a b rule: commonPrefix.induct) auto

lemma commonPrefix_take2: "take (length (commonPrefix a b)) b = commonPrefix a b"
  by (induction a b rule: commonPrefix.induct) auto

lemma commonPrefix_drop1: "commonPrefix a b @ drop (length (commonPrefix a b)) a = a"
  by (metis append_take_drop_id commonPrefix_take1)

lemma commonPrefix_drop2: "commonPrefix a b @ drop (length (commonPrefix a b)) b = b"
  by (metis append_take_drop_id commonPrefix_take2)

lemma commonSuffix_take1: "take (length a - length (commonSuffix a b)) a @ commonSuffix a b = a"
proof -
  let ?p = "commonPrefix (rev a) (rev b)"
  have "?p @ drop (length ?p) (rev a) = rev a" by (rule commonPrefix_drop1)
  then have "rev (?p @ drop (length ?p) (rev a)) = a" by simp
  then show ?thesis by (simp add: commonSuffix_def rev_drop)
qed

lemma commonSuffix_take2: "take (length b - length (commonSuffix a b)) b @ commonSuffix a b = b"
proof -
  let ?p = "commonPrefix (rev a) (rev b)"
  have "?p @ drop (length ?p) (rev b) = rev b" by (rule commonPrefix_drop2)
  then have "rev (?p @ drop (length ?p) (rev b)) = b" by simp
  then show ?thesis by (simp add: commonSuffix_def rev_drop)
qed

lemma script_old_assemble:
  "script_old ((if p = [] then [] else [(DIFF_EQUAL, p)])
         @ (if m1 = [] then [] else [(DIFF_DELETE, m1)])
         @ (if m2 = [] then [] else [(DIFF_INSERT, m2)])
         @ (if s = [] then [] else [(DIFF_EQUAL, s)])) = p @ m1 @ s"
  by (simp add: script_old_def DIFF_EQUAL_def DIFF_INSERT_def DIFF_DELETE_def)

lemma script_new_assemble:
  "script_new ((if p = [] then [] else [(DIFF_EQUAL, p)])
         @ (if m1 = [] then [] else [(DIFF_DELETE, m1)])
         @ (if m2 = [] then [] else [(DIFF_INSERT, m2)])
         @ (if s = [] then [] else [(DIFF_EQUAL, s)])) = p @ m2 @ s"
  by (simp add: script_new_def DIFF_EQUAL_def DIFF_INSERT_def DIFF_DELETE_def)

lemma script_old_diff_main: "script_old (diff_main a b) = a"
proof (cases "a = b")
  case True
  then show ?thesis by (simp add: diff_main_def script_old_def DIFF_EQUAL_def DIFF_INSERT_def)
next
  case False
  let ?pre = "commonPrefix a b"
  let ?r1 = "drop (length ?pre) a"
  let ?r2 = "drop (length ?pre) b"
  let ?suf = "commonSuffix ?r1 ?r2"
  let ?m1 = "take (length ?r1 - length ?suf) ?r1"
  have "script_old (diff_main a b) = ?pre @ ?m1 @ ?suf"
    using False unfolding diff_main_def Let_def
    by (simp only: if_False script_old_assemble)
  also have "\<dots> = ?pre @ ?r1" by (simp only: commonSuffix_take1)
  also have "\<dots> = a" by (rule commonPrefix_drop1)
  finally show ?thesis .
qed

lemma script_new_diff_main: "script_new (diff_main a b) = b"
proof (cases "a = b")
  case True
  then show ?thesis by (simp add: diff_main_def script_new_def DIFF_EQUAL_def DIFF_DELETE_def)
next
  case False
  let ?pre = "commonPrefix a b"
  let ?r1 = "drop (length ?pre) a"
  let ?r2 = "drop (length ?pre) b"
  let ?suf = "commonSuffix ?r1 ?r2"
  let ?m2 = "take (length ?r2 - length ?suf) ?r2"
  have "script_new (diff_main a b) = ?pre @ ?m2 @ ?suf"
    using False unfolding diff_main_def Let_def
    by (simp only: if_False script_new_assemble)
  also have "\<dots> = ?pre @ ?r2" by (simp only: commonSuffix_take2)
  also have "\<dots> = b" by (rule commonPrefix_drop2)
  finally show ?thesis .
qed

lemma script_old_cleanupSemantic: "script_old (diff_cleanupSemantic ds) = script_old ds"
  by (induction ds rule: diff_cleanupSemantic.induct)
     (auto simp: script_old_def split: list.splits)

lemma script_new_cleanupSemantic: "script_new (diff_cleanupSemantic ds) = script_new ds"
  by (induction ds rule: diff_cleanupSemantic.induct)
     (auto simp: script_new_def split: list.splits)

lemma spans_old_render: "spans_old (map (\<lambda>(index, d). render_diff index d) (enumerate n ds)) = script_old ds"
  by (induction ds arbitrary: n)
     (auto simp: spans_old_def script_old_def render_diff_def DIFF_INSERT_def DIFF_DELETE_def DIFF_EQUAL_def)

lemma spans_new_render: "spans_new (map (\<lambda>(index, d). render_diff index d) (enumerate n ds)) = script_new ds"
  by (induction ds arbitrary: n)
     (auto simp: spans_new_def script_new_def render_diff_def DIFF_INSERT_def DIFF_DELETE_def DIFF_EQUAL_def)

text \<open>
  Claim C1. For every pair of an old and a new text, the sequence of elements that
  \<open>LiveDiffView\<close> renders from the cleaned edit script is lossless: the data of all
  elements but the deletions, in order, is the new text, and the data of all elements but
  the insertions is the old text. The edit script is the one modelled from the spec; the
  mapping of operations to elements is the component's.
\<close>

theorem LiveDiffView_lossless:
  "spans_new (LiveDiffView_spans oldText newText) = newText \<and>
   spans_old (LiveDiffView_spans oldText newText) = oldText"
  by (simp add: LiveDiffView_spans_def spans_old_render spans_new_render
      script_old_cleanupSemantic script_new_cleanupSemantic
      script_old_diff_main script_new_diff_main)


text \<open>
  The modelled edit script agrees with the library on the inputs of the component's own
  tests (\<open>LiveDiffView.test.tsx\<close>): identical texts, an addition, a deletion, a changed
  word, an empty old text and an empty new text.
\<close>

lemmas diff_eval = LiveDiffView_spans_def diff_main_def commonSuffix_def render_diff_def
  DIFF_EQUAL_def DIFF_INSERT_def DIFF_DELETE_def ins_text_def del_text_def spans_new_def

lemma LiveDiffView_test_identical:
  "ins_text (LiveDiffView_spans ''Hello world'' ''Hello world'') = [] \<and>
   del_text (LiveDiffView_spans ''Hello world'' ''Hello world'') = [] \<and>
   spans_new (LiveDiffView_spans ''Hello world'' ''Hello world'') = ''Hello world''"
  by (simp add: diff_eval)

lemma LiveDiffView_test_additions:
  "ins_text (LiveDiffView_spans ''Hello'' ''Hello world'') = '' world'' \<and>
   del_text (LiveDiffView_spans ''Hello'' ''Hello world'') = []"
  by (simp add: diff_eval)

lemma LiveDiffView_test_deletions:
  "del_text (LiveDiffView_spans ''Hello world'' ''Hello'') = '' world'' \<and>
   ins_text (LiveDiffView_spans ''Hello world'' ''Hello'') = []"
  by (simp add: diff_eval)

lemma LiveDiffView_test_mixed:
  "del_text (LiveDiffView_spans ''Hello old world'' ''Hello new world'') = ''old'' \<and>
   ins_text (LiveDiffView_spans ''Hello old world'' ''Hello new world'') = ''new''"
  by (simp add: diff_eval)

lemma LiveDiffView_test_empty_old:
  "ins_text (LiveDiffView_spans [] ''Everything is new'') = ''Everything is new'' \<and>
   del_text (LiveDiffView_spans [] ''Everything is new'') = []"
  by (simp add: diff_eval)

lemma LiveDiffView_test_empty_new:
  "del_text (LiveDiffView_spans ''Everything is old'' []) = ''Everything is old'' \<and>
   ins_text (LiveDiffView_spans ''Everything is old'' []) = []"
  by (simp add: diff_eval)

lemma diffHtml_example:
  \<open>diffHtml ''Hello'' ''Hello world'' =
     ''<span key="diff-0">Hello</span><ins class="diff-ins" key="diff-1"> world</ins>''\<close>
  by (simp add: diffHtml_def span_html_def diff_eval nat_to_string_small digit_char_def)

section \<open>Frame properties of the store calls\<close>

lemma console_error_simps [simp]:
  "prompts (console_error m w) = prompts w"
  "tags (console_error m w) = tags w"
  "prompt_tags (console_error m w) = prompt_tags w"
  "prompt_versions (console_error m w) = prompt_versions w"
  "next_uuid (console_error m w) = next_uuid w"
  "toasts (console_error m w) = toasts w"
  "console (console_error m w) = console w @ [m]"
  by (simp_all add: console_error_def)

lemma toast_error_simps [simp]:
  "prompts (toast_error m w) = prompts w"
  "tags (toast_error m w) = tags w"
  "prompt_tags (toast_error m w) = prompt_tags w"
  "prompt_versions (toast_error m w) = prompt_versions w"
  "next_uuid (toast_error m w) = next_uuid w"
  "toasts (toast_error m w) = toasts w @ [m]"
  "console (toast_error m w) = console w"
  by (simp_all add: toast_error_def)

lemma upsert_tag_ok:
  assumes "\<not> fail_tags_upsert e n"
  shows "\<exists>w1 t. upsert_tag e w n = (w1, Inr t) \<and>
           prompt_versions w1 = prompt_versions w \<and> prompts w1 = prompts w \<and>
           toasts w1 = toasts w \<and> next_uuid w \<le> next_uuid w1"
proof (cases "find (\<lambda>t. t_name t = n) (tags w)")
  case None
  with assms show ?thesis by (simp add: upsert_tag_def)
next
  case (Some t)
  with assms show ?thesis by (simp add: upsert_tag_def)
qed

lemma insert_prompt_tag_frame:
  "insert_prompt_tag e w pid tid = (w2, r) \<Longrightarrow>
     prompt_versions w2 = prompt_versions w \<and> prompts w2 = prompts w \<and>
     tags w2 = tags w \<and> toasts w2 = toasts w \<and> next_uuid w2 = next_uuid w"
  by (auto simp: insert_prompt_tag_def split: if_splits)

lemma upsert_and_link_tags_frame:
  "upsert_and_link_tags e pid ns (w, acc) = (w', acc') \<Longrightarrow>
     prompt_versions w' = prompt_versions w \<and> prompts w' = prompts w \<and>
     toasts w' = toasts w \<and> next_uuid w \<le> next_uuid w'"
proof (induction ns arbitrary: w acc)
  case Nil
  then show ?case by simp
next
  case (Cons n ns)
  show ?case
  proof (cases "fail_tags_upsert e n")
    case True
    with Cons.prems have "upsert_and_link_tags e pid ns (console_error ''Error upserting tag:'' w, acc) = (w', acc')"
      by (simp add: upsert_tag_def)
    from Cons.IH[OF this] show ?thesis by simp
  next
    case False
    obtain w1 t where up: "upsert_tag e w n = (w1, Inr t)"
      and fr: "prompt_versions w1 = prompt_versions w" "prompts w1 = prompts w"
              "toasts w1 = toasts w" "next_uuid w \<le> next_uuid w1"
      using upsert_tag_ok[OF False, of w] by blast
    obtain w2 r where li: "insert_prompt_tag e w1 pid (t_id t) = (w2, r)"
      by (cases "insert_prompt_tag e w1 pid (t_id t)") auto
    note fr2 = insert_prompt_tag_frame[OF li]
    show ?thesis
    proof (cases r)
      case (Inl err)
      with Cons.prems up li have "upsert_and_link_tags e pid ns (console_error ''Error creating prompt_tag link:'' w2, acc @ [t]) = (w', acc')"
        by simp
      from Cons.IH[OF this] fr fr2 show ?thesis by simp
    next
      case (Inr u)
      with Cons.prems up li have "upsert_and_link_tags e pid ns (w2, acc @ [t]) = (w', acc')"
        by simp
      from Cons.IH[OF this] fr fr2 show ?thesis by simp
    qed
  qed
qed

lemma link_tags_frame:
  "link_tags e fid ts (w, acc) = (w', acc') \<Longrightarrow>
     prompt_versions w' = prompt_versions w \<and> prompts w' = prompts w \<and>
     tags w' = tags w \<and> toasts w' = toasts w \<and> next_uuid w' = next_uuid w"
proof (induction ts arbitrary: w acc)
  case Nil
  then show ?case by simp
next
  case (Cons t ts)
  show ?case
  proof (cases "fail_prompt_tags_insert e fid (t_id t)")
    case True
    with Cons.prems have "link_tags e fid ts (console_error ''Error linking tag to forked prompt:'' w, acc) = (w', acc')"
      by (simp add: insert_prompt_tag_def)
    from Cons.IH[OF this] show ?thesis by simp
  next
    case False
    with Cons.prems have "link_tags e fid ts (w\<lparr>prompt_tags := prompt_tags w @ [(fid, t_id t)]\<rparr>, acc @ [t]) = (w', acc')"
      by (simp add: insert_prompt_tag_def)
    from Cons.IH[OF this] show ?thesis by simp
  qed
qed

lemma link_tags_result:
  "link_tags e fid ts (w, acc) = (w', acc') \<Longrightarrow>
     acc' = acc @ filter (\<lambda>t. \<not> fail_prompt_tags_insert e fid (t_id t)) ts \<and>
     prompt_tags w' = prompt_tags w
        @ map (\<lambda>t. (fid, t_id t)) (filter (\<lambda>t. \<not> fail_prompt_tags_insert e fid (t_id t)) ts)"
proof (induction ts arbitrary: w acc)
  case Nil
  then show ?case by simp
next
  case (Cons t ts)
  show ?case
  proof (cases "fail_prompt_tags_insert e fid (t_id t)")
    case True
    with Cons.prems have "link_tags e fid ts (console_error ''Error linking tag to forked prompt:'' w, acc) = (w', acc')"
      by (simp add: insert_prompt_tag_def)
    from Cons.IH[OF this] True show ?thesis by simp
  next
    case False
    with Cons.prems have "link_tags e fid ts (w\<lparr>prompt_tags := prompt_tags w @ [(fid, t_id t)]\<rparr>, acc @ [t]) = (w', acc')"
      by (simp add: insert_prompt_tag_def)
    from Cons.IH[OF this] False show ?thesis by simp
  qed
qed

section \<open>What each mutation does\<close>

lemma createPrompt_Inr:
  assumes "createPrompt e w f nts = Inr (w', pid, row, tgs)"
  shows "\<exists>uid w2. user e = Some uid \<and> \<not> fail_prompts_insert e \<and> pid = next_uuid w \<and>
           row = promptData uid f \<and>
           prompts w2 = (prompts w)(pid \<mapsto> row) \<and>
           prompt_versions w2 = prompt_versions w \<and> toasts w2 = toasts w \<and>
           Suc (next_uuid w) \<le> next_uuid w2 \<and>
           w' = (case insert_version e w2
                        (initial_version pid (JString (case f_body f of None \<Rightarrow> [] | Some b \<Rightarrow> b))
                           ''Initial version.'') of
                   (wv, Inl versionError) \<Rightarrow>
                     toast_error ''Prompt created, but failed to create initial version.''
                       (console_error ''Failed to create initial prompt version:'' wv)
                 | (wv, Inr u) \<Rightarrow> wv)"
proof -
  from assms obtain uid where u: "user e = Some uid"
    by (auto simp: createPrompt_def split: option.splits)
  from assms u have nf: "\<not> fail_prompts_insert e"
    by (auto simp: createPrompt_def insert_prompt_def split: if_splits)
  let ?w1 = "w\<lparr>prompts := (prompts w)(next_uuid w \<mapsto> promptData uid f), next_uuid := Suc (next_uuid w)\<rparr>"
  have ins: "insert_prompt e w (promptData uid f) = Inr (?w1, next_uuid w, promptData uid f)"
    using nf by (simp add: insert_prompt_def)
  obtain w2 cto where tg: "(case nts of None \<Rightarrow> (?w1, []) | Some ns \<Rightarrow> upsert_and_link_tags e (next_uuid w) ns (?w1, [])) = (w2, cto)"
    by (cases "(case nts of None \<Rightarrow> (?w1, []) | Some ns \<Rightarrow> upsert_and_link_tags e (next_uuid w) ns (?w1, []))") auto
  have fr: "prompt_versions w2 = prompt_versions ?w1 \<and> prompts w2 = prompts ?w1 \<and>
     toasts w2 = toasts ?w1 \<and> next_uuid ?w1 \<le> next_uuid w2"
  proof (cases nts)
    case None
    with tg show ?thesis by auto
  next
    case (Some ns)
    with tg have "upsert_and_link_tags e (next_uuid w) ns (?w1, []) = (w2, cto)" by simp
    from upsert_and_link_tags_frame[OF this] show ?thesis .
  qed
  from assms u ins tg have
    "pid = next_uuid w \<and> row = promptData uid f \<and>
     w' = (case insert_version e w2
                        (initial_version pid (JString (case f_body f of None \<Rightarrow> [] | Some b \<Rightarrow> b))
                           ''Initial version.'') of
                   (wv, Inl versionError) \<Rightarrow>
                     toast_error ''Prompt created, but failed to create initial version.''
                       (console_error ''Failed to create initial prompt version:'' wv)
                 | (wv, Inr u) \<Rightarrow> wv)"
    by (auto simp add: createPrompt_def Let_def)
  with u nf fr show ?thesis by auto
qed

lemma forkPrompt_Inr:
  assumes "forkPrompt e w promptId title = Inr (w', fid, row, tgs)"
  shows "\<exists>uid orig w2. user e = Some uid \<and> \<not> fail_prompts_select e \<and> \<not> fail_prompts_insert e \<and>
           prompts w promptId = Some orig \<and> fid = next_uuid w \<and>
           row = \<lparr>p_title = Some (fork_title title orig), p_body = p_body orig,
                   p_metadata = p_metadata orig, p_creator_id = uid, p_status = Draft,
                   p_visibility = Private, p_forked_from = Some promptId, p_fork_version = None\<rparr> \<and>
           tgs = filter (\<lambda>t. \<not> fail_prompt_tags_insert e fid (t_id t)) (tags_of_prompt w promptId) \<and>
           prompts w2 = (prompts w)(fid \<mapsto> row) \<and> tags w2 = tags w \<and>
           prompt_tags w2 = prompt_tags w @ map (\<lambda>t. (fid, t_id t)) tgs \<and>
           prompt_versions w2 = prompt_versions w \<and> toasts w2 = toasts w \<and>
           next_uuid w2 = Suc (next_uuid w) \<and>
           w' = (case insert_version e w2
                        (initial_version fid (json_of_body (p_body orig)) ''Initial version (forked).'') of
                   (wv, Inl versionError) \<Rightarrow>
                     toast_error ''Fork created, but failed to create initial version.''
                       (console_error ''Failed to create initial version for forked prompt:'' wv)
                 | (wv, Inr u) \<Rightarrow> wv)"
proof -
  from assms obtain uid where u: "user e = Some uid"
    by (auto simp: forkPrompt_def split: option.splits)
  from assms u have nf: "\<not> fail_prompts_select e"
    by (auto simp: forkPrompt_def select_prompt_with_tags_def split: if_splits)
  from assms u nf obtain orig where o: "prompts w promptId = Some orig"
    by (auto simp: forkPrompt_def select_prompt_with_tags_def split: option.splits)
  have sel: "select_prompt_with_tags e w promptId = Inr (orig, tags_of_prompt w promptId)"
    using nf o by (simp add: select_prompt_with_tags_def)
  from assms u sel have ni: "\<not> fail_prompts_insert e"
    by (auto simp: forkPrompt_def insert_prompt_def split: if_splits)
  let ?row = "\<lparr>p_title = Some (fork_title title orig), p_body = p_body orig,
                   p_metadata = p_metadata orig, p_creator_id = uid, p_status = Draft,
                   p_visibility = Private, p_forked_from = Some promptId, p_fork_version = None\<rparr>"
  let ?w1 = "w\<lparr>prompts := (prompts w)(next_uuid w \<mapsto> ?row), next_uuid := Suc (next_uuid w)\<rparr>"
  have ins: "insert_prompt e w ?row = Inr (?w1, next_uuid w, ?row)"
    using ni by (simp add: insert_prompt_def)
  obtain w2 fto where lk: "link_tags e (next_uuid w) (tags_of_prompt w promptId) (?w1, []) = (w2, fto)"
    by (cases "link_tags e (next_uuid w) (tags_of_prompt w promptId) (?w1, [])") auto
  note fr = link_tags_frame[OF lk] link_tags_result[OF lk]
  from assms u sel ins lk have
    "fid = next_uuid w \<and> row = ?row \<and> tgs = fto \<and>
     w' = (case insert_version e w2
                        (initial_version fid (json_of_body (p_body orig)) ''Initial version (forked).'') of
                   (wv, Inl versionError) \<Rightarrow>
                     toast_error ''Fork created, but failed to create initial version.''
                       (console_error ''Failed to create initial version for forked prompt:'' wv)
                 | (wv, Inr u) \<Rightarrow> wv)"
    by (auto simp add: forkPrompt_def Let_def)
  with u nf ni o fr show ?thesis by auto
qed

lemma body_changed_same [simp]: "\<not> body_changed b b"
  by (simp add: body_changed_def split: option.splits)

lemma body_changed_None [simp]: "\<not> body_changed None b" "\<not> body_changed b None"
  by (simp_all add: body_changed_def split: option.splits)

lemma updatePrompt_Inr:
  assumes "updatePrompt e w i f nts = Inr (w', row, ptags)"
  shows "\<exists>orig w2. user e \<noteq> None \<and> prompts w i = Some orig \<and>
           row = (if has_keys f then apply_fields f orig else orig) \<and>
           prompts w2 = (if has_keys f then (prompts w)(i \<mapsto> row) else prompts w) \<and>
           prompt_versions w2 = prompt_versions w \<and>
           (nts = None \<longrightarrow> w2 = w\<lparr>prompts := prompts w2\<rparr> \<and> ptags = None) \<and>
           w' = updatePrompt_versioning e w2 i (f_body f) (select_body e w2 i)"
proof -
  from assms obtain uid where u: "user e = Some uid"
    by (auto simp: updatePrompt_def split: option.splits)
  from assms u obtain w1 where s1: "(if has_keys f then update_prompt e w i f else select_prompt e w i) = Inr (w1, row)"
    by (auto simp: updatePrompt_def Let_def split: sum.splits prod.splits)
  then obtain orig where o: "prompts w i = Some orig"
    and r: "row = (if has_keys f then apply_fields f orig else orig)"
    and w1: "w1 = (if has_keys f then w\<lparr>prompts := (prompts w)(i \<mapsto> row)\<rparr> else w)"
    by (auto simp: update_prompt_def select_prompt_def split: if_splits option.splits)
  let ?step2 = "(case nts of
                        None \<Rightarrow> (w1, None)
                      | Some ns \<Rightarrow>
                          let wd = (case delete_prompt_tags e w1 i of
                                      (w', Inl deleteError) \<Rightarrow>
                                        toast_error
                                          ''Error clearing old tags. Tag update may be incomplete.''
                                          (console_error ''Error deleting old prompt_tags:'' w')
                                    | (w', Inr u) \<Rightarrow> w');
                              (wt, ts) = upsert_and_link_tags e i ns (wd, [])
                          in (wt, Some ts))"
  obtain w2 pt where s2: "?step2 = (w2, pt)" by (cases ?step2) auto
  have fr: "prompt_versions w2 = prompt_versions w1 \<and> prompts w2 = prompts w1"
  proof (cases nts)
    case None
    with s2 show ?thesis by auto
  next
    case (Some ns)
    let ?wd = "(case delete_prompt_tags e w1 i of
                                      (w', Inl deleteError) \<Rightarrow>
                                        toast_error
                                          ''Error clearing old tags. Tag update may be incomplete.''
                                          (console_error ''Error deleting old prompt_tags:'' w')
                                    | (w', Inr u) \<Rightarrow> w')"
    have d: "prompt_versions ?wd = prompt_versions w1 \<and> prompts ?wd = prompts w1"
      by (simp add: delete_prompt_tags_def)
    obtain wt ts where ul: "upsert_and_link_tags e i ns (?wd, []) = (wt, ts)"
      by (cases "upsert_and_link_tags e i ns (?wd, [])") auto
    with s2 Some have "w2 = wt" by (simp add: Let_def)
    with upsert_and_link_tags_frame[OF ul] d show ?thesis by simp
  qed
  have n: "nts = None \<longrightarrow> w2 = w1 \<and> pt = None" using s2 by auto
  from assms u s1 s2 have "ptags = pt \<and> w' = updatePrompt_versioning e w2 i (f_body f) (select_body e w2 i)"
    by (auto simp: updatePrompt_def Let_def)
  with u o r w1 fr n show ?thesis by (auto split: if_splits)
qed

text \<open>
  \<open>updatePrompt\<close> never writes a version. Step 1 stores the new body; step 3 reads the
  stored body back as \<open>bodyForComparison\<close> and enters the versioning step only when it
  differs from the new body, which it cannot after step 1.
\<close>

lemma updatePrompt_no_version:
  assumes "updatePrompt e w i f nts = Inr (w', row, ptags)"
  shows "prompt_versions w' = prompt_versions w"
proof -
  from updatePrompt_Inr[OF assms] obtain orig w2 where
    o: "prompts w i = Some orig" and
    r: "row = (if has_keys f then apply_fields f orig else orig)" and
    p2: "prompts w2 = (if has_keys f then (prompts w)(i \<mapsto> row) else prompts w)" and
    v2: "prompt_versions w2 = prompt_versions w" and
    w': "w' = updatePrompt_versioning e w2 i (f_body f) (select_body e w2 i)"
    by blast
  have "\<not> body_changed (f_body f) (select_body e w2 i)"
  proof (cases "f_body f")
    case None
    then show ?thesis by simp
  next
    case (Some nb)
    then have hk: "has_keys f" by (simp add: has_keys_def)
    with r Some have "p_body row = Some nb" by (simp add: apply_fields_def)
    with hk p2 have "select_body e w2 i = None \<or> select_body e w2 i = Some nb"
      by (simp add: select_body_def)
    with Some show ?thesis by auto
  qed
  with w' v2 show ?thesis by (simp add: updatePrompt_versioning_def)
qed

section \<open>The invariants under the mutations\<close>

lemma insert_initial_version_versions:
  "prompt_versions (case insert_version e w2 row of
                      (wv, Inl err) \<Rightarrow> toast_error m1 (console_error m2 wv)
                    | (wv, Inr u) \<Rightarrow> wv) =
     (if fail_versions_insert e then prompt_versions w2
      else prompt_versions w2 @ [row\<lparr>v_id := next_uuid w2\<rparr>])"
  by (simp add: insert_version_def)

lemma I1_versions_cong: "prompt_versions w' = prompt_versions w \<Longrightarrow> I1 w' = I1 w"
  by (simp add: I1_def scope_versions_def)






lemma wf_world_fresh_prompt:
  assumes "wf_world w"
  shows "\<forall>x \<in> set (prompt_versions w). v_prompt_id x \<noteq> next_uuid w"
  using assms by (fastforce simp: wf_world_def)

text \<open>What the version table looks like after each mutation.\<close>

lemma createPrompt_versions:
  assumes "createPrompt e w f nts = Inr (w', pid, row, tgs)"
  shows "pid = next_uuid w \<and>
         (if fail_versions_insert e then prompt_versions w' = prompt_versions w
          else \<exists>vid. prompt_versions w' = prompt_versions w @
                 [(initial_version pid (JString (case f_body f of None \<Rightarrow> [] | Some b \<Rightarrow> b))
                     ''Initial version.'')\<lparr>v_id := vid\<rparr>])"
proof -
  from createPrompt_Inr[OF assms] obtain w2 where
    "pid = next_uuid w" "prompt_versions w2 = prompt_versions w"
    "w' = (case insert_version e w2
                        (initial_version pid (JString (case f_body f of None \<Rightarrow> [] | Some b \<Rightarrow> b))
                           ''Initial version.'') of
                   (wv, Inl versionError) \<Rightarrow>
                     toast_error ''Prompt created, but failed to create initial version.''
                       (console_error ''Failed to create initial prompt version:'' wv)
                 | (wv, Inr u) \<Rightarrow> wv)"
    by blast
  then show ?thesis by (auto simp add: insert_initial_version_versions)
qed

lemma forkPrompt_versions:
  assumes "forkPrompt e w promptId title = Inr (w', fid, row, tgs)"
  shows "fid = next_uuid w \<and>
         (if fail_versions_insert e then prompt_versions w' = prompt_versions w
          else \<exists>vid. prompt_versions w' = prompt_versions w @
                 [(initial_version fid (json_of_body (p_body row)) ''Initial version (forked).'')\<lparr>v_id := vid\<rparr>])"
proof -
  from forkPrompt_Inr[OF assms] obtain uid orig w2 where
    "fid = next_uuid w" "prompt_versions w2 = prompt_versions w"
    "row = \<lparr>p_title = Some (fork_title title orig), p_body = p_body orig,
                   p_metadata = p_metadata orig, p_creator_id = uid, p_status = Draft,
                   p_visibility = Private, p_forked_from = Some promptId, p_fork_version = None\<rparr>"
    "w' = (case insert_version e w2
                        (initial_version fid (json_of_body (p_body orig)) ''Initial version (forked).'') of
                   (wv, Inl versionError) \<Rightarrow>
                     toast_error ''Fork created, but failed to create initial version.''
                       (console_error ''Failed to create initial version for forked prompt:'' wv)
                 | (wv, Inr u) \<Rightarrow> wv)"
    by blast
  then show ?thesis by (auto simp add: insert_initial_version_versions)
qed

lemma initial_version_simps [simp]:
  "v_prompt_id (initial_version pid c lg) = pid"
  "v_branch_id (initial_version pid c lg) = None"
  "v_content (initial_version pid c lg) = c"
  "v_version_number (initial_version pid c lg) = 1"
  "v_is_latest (initial_version pid c lg) = True"
  "v_change_log (initial_version pid c lg) = lg"
  "v_parent_version_id (initial_version pid c lg) = None"
  "v_metadata (initial_version pid c lg) = []"
  by (simp_all add: initial_version_def)



lemma updatePrompt_I1:
  assumes "I1 w"
  shows "I1 (world_after (updatePrompt e w i f nts) w)"
proof (cases "updatePrompt e w i f nts")
  case (Inl err)
  with assms show ?thesis by (simp add: world_after_def)
next
  case (Inr x)
  obtain w' row pt where x: "x = (w', row, pt)" by (cases x) auto
  with Inr updatePrompt_no_version have "prompt_versions w' = prompt_versions w" by blast
  with assms I1_versions_cong have "I1 w'" by blast
  with Inr x show ?thesis by (simp add: world_after_def)
qed

text \<open>
  So \<open>updatePrompt\<close> as a whole cannot disturb the latest flags: it leaves the version
  table as it found it. What its versioning step does to them when it is entered is the
  subject of the last but one section.
\<close>

lemma wf_world_hello: "wf_world world_hello"
  by (simp add: wf_world_def world_hello_def greeting_v1_def)


lemma insert_initial_version_frame:
  "prompts (case insert_version e w2 row of
                      (wv, Inl err) \<Rightarrow> toast_error m1 (console_error m2 wv)
                    | (wv, Inr u) \<Rightarrow> wv) = prompts w2"
  "tags (case insert_version e w2 row of
                      (wv, Inl err) \<Rightarrow> toast_error m1 (console_error m2 wv)
                    | (wv, Inr u) \<Rightarrow> wv) = tags w2"
  "prompt_tags (case insert_version e w2 row of
                      (wv, Inl err) \<Rightarrow> toast_error m1 (console_error m2 wv)
                    | (wv, Inr u) \<Rightarrow> wv) = prompt_tags w2"
  by (simp_all add: insert_version_def)

text \<open>
  Claim C6. Creating a document creates its version number 1: when \<open>createPrompt\<close>
  returns and the insert into the version table did not fail, the document is new, and
  the table has gained exactly one row, the only version of the new document, with
  \<open>version_number = 1\<close>, \<open>is_latest = true\<close>, \<open>change_log = "Initial version."\<close>, no parent
  version, no branch, and the body passed in (the empty string when there was none) as
  its content.
\<close>

theorem createPrompt_initial_version:
  assumes "wf_world w"
    and "createPrompt e w newPrompt newTags = Inr (w', pid, row, tgs)"
    and "\<not> fail_versions_insert e"
  shows "prompts w pid = None \<and> prompts w' pid = Some row \<and>
         (\<exists>v. prompt_versions w' = prompt_versions w @ [v] \<and>
              filter (\<lambda>x. v_prompt_id x = pid) (prompt_versions w') = [v] \<and>
              v_prompt_id v = pid \<and> v_branch_id v = None \<and>
              v_version_number v = 1 \<and> v_is_latest v \<and>
              v_change_log v = ''Initial version.'' \<and> v_parent_version_id v = None \<and>
              v_content v = JString (case f_body newPrompt of None \<Rightarrow> [] | Some b \<Rightarrow> b))"
proof -
  from createPrompt_Inr[OF assms(2)] obtain w2 where
    p: "pid = next_uuid w" and p2: "prompts w2 = (prompts w)(pid \<mapsto> row)" and
    w': "w' = (case insert_version e w2
                        (initial_version pid (JString (case f_body newPrompt of None \<Rightarrow> [] | Some b \<Rightarrow> b))
                           ''Initial version.'') of
                   (wv, Inl versionError) \<Rightarrow>
                     toast_error ''Prompt created, but failed to create initial version.''
                       (console_error ''Failed to create initial prompt version:'' wv)
                 | (wv, Inr u) \<Rightarrow> wv)"
    by blast
  from assms(1) p have fresh: "prompts w pid = None"
    by (fastforce simp: wf_world_def)
  from w' p2 have here: "prompts w' pid = Some row"
    by (simp add: insert_initial_version_frame)
  from createPrompt_versions[OF assms(2)] assms(3) obtain vid where
    a: "prompt_versions w' = prompt_versions w @
                 [(initial_version pid (JString (case f_body newPrompt of None \<Rightarrow> [] | Some b \<Rightarrow> b))
                     ''Initial version.'')\<lparr>v_id := vid\<rparr>]"
    by auto
  have "filter (\<lambda>x. v_prompt_id x = pid) (prompt_versions w) = []"
    using wf_world_fresh_prompt[OF assms(1)] p by (simp add: filter_empty_conv)
  with a fresh here show ?thesis by simp
qed

lemma createPrompt_example:
  "\<exists>w' row tgs.
     createPrompt env_ok world_hello (no_fields\<lparr>f_title := Some ''T'', f_body := Some ''B''\<rparr>)
       (Some [''gpt4'', ''new'']) = Inr (w', 4, row, tgs)"
  by (simp add: createPrompt_def env_ok_def insert_prompt_def world_hello_def Let_def
      upsert_tag_def insert_prompt_tag_def insert_version_def promptData_def no_fields_def)

theorem createPrompt_initial_version_witness:
  "\<exists>w' row tgs.
     createPrompt env_ok world_hello (no_fields\<lparr>f_title := Some ''T'', f_body := Some ''B''\<rparr>)
       (Some [''gpt4'', ''new'']) = Inr (w', 4, row, tgs) \<and>
     prompts world_hello 4 = None \<and> prompts w' 4 = Some row \<and>
     (\<exists>v. prompt_versions w' = prompt_versions world_hello @ [v] \<and>
          filter (\<lambda>x. v_prompt_id x = 4) (prompt_versions w') = [v] \<and>
          v_prompt_id v = 4 \<and> v_branch_id v = None \<and> v_version_number v = 1 \<and> v_is_latest v \<and>
          v_change_log v = ''Initial version.'' \<and> v_parent_version_id v = None \<and>
          v_content v = JString ''B'')"
proof -
  from createPrompt_example obtain w' row tgs where
    r: "createPrompt env_ok world_hello (no_fields\<lparr>f_title := Some ''T'', f_body := Some ''B''\<rparr>)
       (Some [''gpt4'', ''new'']) = Inr (w', 4, row, tgs)" by blast
  have nf: "\<not> fail_versions_insert env_ok" by (simp add: env_ok_def)
  from createPrompt_initial_version[OF wf_world_hello r nf] r show ?thesis
    by (simp add: no_fields_def)
qed

lemma filter_unique_id:
  assumes "distinct (map t_id ts)" and "t \<in> set ts"
  shows "filter (\<lambda>x. t_id x = t_id t) ts = [t]"
  using assms
proof (induction ts)
  case Nil
  then show ?case by simp
next
  case (Cons a ts)
  show ?case
  proof (cases "a = t")
    case True
    with Cons.prems(1) have "\<forall>x \<in> set ts. t_id x \<noteq> t_id t" by (auto simp: image_iff)
    then have "filter (\<lambda>x. t_id x = t_id t) ts = []" by (simp add: filter_empty_conv)
    with True show ?thesis by simp
  next
    case False
    with Cons.prems have "t \<in> set ts" "t_id a \<noteq> t_id t" by (auto simp: image_iff)
    with Cons show ?thesis by simp
  qed
qed

lemma tags_of_prompt_subset: "set (tags_of_prompt w pid) \<subseteq> set (tags w)"
  by (auto simp: tags_of_prompt_def split: if_splits)

lemma concat_filter_unique_ids:
  assumes "distinct (map t_id ts)" and "set xs \<subseteq> set ts"
  shows "concat (map (\<lambda>t. filter (\<lambda>x. t_id x = t_id t) ts) xs) = xs"
  using assms(2)
proof (induction xs)
  case Nil
  then show ?case by simp
next
  case (Cons a xs)
  then have "a \<in> set ts" "set xs \<subseteq> set ts" by auto
  with Cons.IH filter_unique_id[OF assms(1)] show ?case by simp
qed

lemma tags_of_prompt_forked:
  assumes "wf_world w"
    and "tags w' = tags w"
    and "prompt_tags w' = prompt_tags w @ map (\<lambda>t. (next_uuid w, t_id t)) tgs"
    and "set tgs \<subseteq> set (tags w)"
  shows "tags_of_prompt w' (next_uuid w) = tgs"
proof -
  let ?g = "\<lambda>l. if fst l = next_uuid w then filter (\<lambda>t. t_id t = snd l) (tags w) else []"
  have old: "\<forall>l \<in> set (prompt_tags w). fst l \<noteq> next_uuid w"
    using assms(1) by (fastforce simp: wf_world_def)
  then have "map ?g (prompt_tags w) = map (\<lambda>l. []) (prompt_tags w)" by simp
  then have a: "concat (map ?g (prompt_tags w)) = []" by simp
  have "concat (map ?g (map (\<lambda>t. (next_uuid w, t_id t)) tgs)) =
        concat (map (\<lambda>t. filter (\<lambda>x. t_id x = t_id t) (tags w)) tgs)"
    by (simp add: comp_def)
  also have "\<dots> = tgs"
    using assms(1,4) by (intro concat_filter_unique_ids) (simp_all add: wf_world_def)
  finally have b: "concat (map ?g (map (\<lambda>t. (next_uuid w, t_id t)) tgs)) = tgs" .
  have "tags_of_prompt w' (next_uuid w) =
        concat (map ?g (prompt_tags w @ map (\<lambda>t. (next_uuid w, t_id t)) tgs))"
    unfolding tags_of_prompt_def assms(2) assms(3) ..
  also have "\<dots> = concat (map ?g (prompt_tags w)) @
                  concat (map ?g (map (\<lambda>t. (next_uuid w, t_id t)) tgs))"
    by (simp only: map_append concat_append)
  also have "\<dots> = tgs" by (simp only: a b append_Nil)
  finally show ?thesis .
qed

text \<open>
  Claim C7. Forking a document: when \<open>forkPrompt\<close> returns, the world holds a new
  document with \<open>status = draft\<close>, \<open>visibility = private\<close>, \<open>forked_from\<close> the source's
  id, the title passed in when one was passed and it is not empty and the source's title
  followed by \<open>" (Fork)"\<close> otherwise, and the source's body and metadata. The tag table
  is untouched; the new document is linked to the source's own tag rows, to every one
  whose link insert did not fail. When the insert into the version table does not fail,
  the new document has exactly one version, with number 1, flagged latest, the forked
  body as content and \<open>change_log = "Initial version (forked)."\<close>; when it fails the
  version table is unchanged.
\<close>

theorem forkPrompt_result:
  assumes "wf_world w"
    and "forkPrompt e w promptId title = Inr (w', fid, row, tgs)"
  shows "\<exists>orig. prompts w promptId = Some orig \<and> prompts w fid = None \<and> prompts w' fid = Some row \<and>
           p_status row = Draft \<and> p_visibility row = Private \<and> p_forked_from row = Some promptId \<and>
           p_title row = Some (case title of
                                 None \<Rightarrow> template_string (p_title orig) @ '' (Fork)''
                               | Some t \<Rightarrow> if t \<noteq> [] then t
                                           else template_string (p_title orig) @ '' (Fork)'') \<and>
           p_body row = p_body orig \<and> p_metadata row = p_metadata orig \<and>
           tags w' = tags w \<and>
           tgs = filter (\<lambda>t. \<not> fail_prompt_tags_insert e fid (t_id t)) (tags_of_prompt w promptId) \<and>
           tags_of_prompt w' fid = tgs \<and>
           (if fail_versions_insert e then prompt_versions w' = prompt_versions w
            else (\<exists>v. prompt_versions w' = prompt_versions w @ [v] \<and>
                   filter (\<lambda>x. v_prompt_id x = fid) (prompt_versions w') = [v] \<and>
                   v_prompt_id v = fid \<and> v_version_number v = 1 \<and> v_is_latest v \<and>
                   v_content v = json_of_body (p_body row) \<and>
                   v_change_log v = ''Initial version (forked).''))"
proof -
  from forkPrompt_Inr[OF assms(2)] obtain uid orig w2 where
    o: "prompts w promptId = Some orig" and f: "fid = next_uuid w" and
    r: "row = \<lparr>p_title = Some (fork_title title orig), p_body = p_body orig,
                   p_metadata = p_metadata orig, p_creator_id = uid, p_status = Draft,
                   p_visibility = Private, p_forked_from = Some promptId, p_fork_version = None\<rparr>" and
    t: "tgs = filter (\<lambda>t. \<not> fail_prompt_tags_insert e fid (t_id t)) (tags_of_prompt w promptId)" and
    p2: "prompts w2 = (prompts w)(fid \<mapsto> row)" and t2: "tags w2 = tags w" and
    l2: "prompt_tags w2 = prompt_tags w @ map (\<lambda>t. (fid, t_id t)) tgs" and
    w': "w' = (case insert_version e w2
                        (initial_version fid (json_of_body (p_body orig)) ''Initial version (forked).'') of
                   (wv, Inl versionError) \<Rightarrow>
                     toast_error ''Fork created, but failed to create initial version.''
                       (console_error ''Failed to create initial version for forked prompt:'' wv)
                 | (wv, Inr u) \<Rightarrow> wv)"
    by blast
  from assms(1) f have fresh: "prompts w fid = None"
    by (fastforce simp: wf_world_def)
  from w' p2 have here: "prompts w' fid = Some row"
    by (simp add: insert_initial_version_frame)
  from w' t2 have tg: "tags w' = tags w"
    by (simp add: insert_initial_version_frame)
  from w' l2 f have lk: "prompt_tags w' = prompt_tags w @ map (\<lambda>t. (next_uuid w, t_id t)) tgs"
    by (simp add: insert_initial_version_frame)
  have sub: "set tgs \<subseteq> set (tags w)"
    using t tags_of_prompt_subset[of w promptId] by auto
  have tp: "tags_of_prompt w' fid = tgs"
    using tags_of_prompt_forked[OF assms(1) tg lk sub] f by simp
  have nov: "filter (\<lambda>x. v_prompt_id x = fid) (prompt_versions w) = []"
    using wf_world_fresh_prompt[OF assms(1)] f by (simp add: filter_empty_conv)
  have ver: "(if fail_versions_insert e then prompt_versions w' = prompt_versions w
            else (\<exists>v. prompt_versions w' = prompt_versions w @ [v] \<and>
                   filter (\<lambda>x. v_prompt_id x = fid) (prompt_versions w') = [v] \<and>
                   v_prompt_id v = fid \<and> v_version_number v = 1 \<and> v_is_latest v \<and>
                   v_content v = json_of_body (p_body row) \<and>
                   v_change_log v = ''Initial version (forked).''))"
    using forkPrompt_versions[OF assms(2)] nov by (auto split: if_splits)
  from r have "p_status row = Draft \<and> p_visibility row = Private \<and> p_forked_from row = Some promptId \<and>
           p_title row = Some (case title of
                                 None \<Rightarrow> template_string (p_title orig) @ '' (Fork)''
                               | Some t \<Rightarrow> if t \<noteq> [] then t
                                           else template_string (p_title orig) @ '' (Fork)'') \<and>
           p_body row = p_body orig \<and> p_metadata row = p_metadata orig"
    by (simp add: fork_title_def)
  with o fresh here tg t tp ver show ?thesis by blast
qed

lemma forkPrompt_example:
  "\<exists>w' row tgs. forkPrompt env_ok world_hello 1 None = Inr (w', 4, row, tgs)"
  by (simp add: forkPrompt_def env_ok_def insert_prompt_def world_hello_def Let_def
      select_prompt_with_tags_def tags_of_prompt_def insert_prompt_tag_def insert_version_def)

theorem forkPrompt_result_witness:
  "\<exists>w' row tgs. forkPrompt env_ok world_hello 1 None = Inr (w', 4, row, tgs) \<and>
      p_status row = Draft \<and> p_visibility row = Private \<and> p_forked_from row = Some 1 \<and>
      p_title row = Some ''Greeting (Fork)'' \<and> p_body row = Some ''Hello'' \<and>
      p_metadata row = Some [(''model'', ''GPT-4'')] \<and>
      tags w' = tags world_hello \<and> tgs = [\<lparr>t_id = 2, t_name = ''gpt4''\<rparr>] \<and>
      tags_of_prompt w' 4 = tgs \<and>
      (\<exists>v. prompt_versions w' = prompt_versions world_hello @ [v] \<and>
           v_prompt_id v = 4 \<and> v_version_number v = 1 \<and> v_is_latest v \<and>
           v_content v = JString ''Hello'' \<and> v_change_log v = ''Initial version (forked).'')"
proof -
  from forkPrompt_example obtain w' row tgs where
    r: "forkPrompt env_ok world_hello 1 None = Inr (w', 4, row, tgs)" by blast
  have g: "prompts world_hello 1 = Some greeting" by (simp add: world_hello_def)
  have t: "tags_of_prompt world_hello 1 = [\<lparr>t_id = 2, t_name = ''gpt4''\<rparr>]"
    by (simp add: tags_of_prompt_def world_hello_def)
  from forkPrompt_result[OF wf_world_hello r] r g t show ?thesis
    by (auto simp add: env_ok_def greeting_def template_string_def json_of_body_def)
qed

section \<open>The versioning step of \<open>updatePrompt\<close>\<close>

lemma commit_new_version_failed:
  assumes "fail_versions_insert e"
  shows "\<exists>w1. prompts w1 = prompts w \<and> tags w1 = tags w \<and> prompt_tags w1 = prompt_tags w \<and>
           prompt_versions w1 = prompt_versions w \<and> next_uuid w1 = next_uuid w \<and> toasts w1 = toasts w \<and>
           commit_new_version e w i nb bc =
             toast_error ''Prompt updated, but failed to create new version.''
               (console_error ''Failed to create new prompt version:'' w1)"
proof (cases "select_latest_version e w i")
  case (Inl err)
  let ?w0 = "if err \<noteq> PGRST116 then console_error ''Error fetching latest version:'' w else w"
  have c: "commit_new_version e w i nb bc =
             toast_error ''Prompt updated, but failed to create new version.''
               (console_error ''Failed to create new prompt version:'' ?w0)"
    using Inl assms by (simp add: commit_new_version_def Let_def insert_version_def)
  have "prompts ?w0 = prompts w \<and> tags ?w0 = tags w \<and> prompt_tags ?w0 = prompt_tags w \<and>
           prompt_versions ?w0 = prompt_versions w \<and> next_uuid ?w0 = next_uuid w \<and> toasts ?w0 = toasts w"
    by simp
  with c show ?thesis by (intro exI[of _ ?w0]) simp
next
  case (Inr l)
  have c: "commit_new_version e w i nb bc =
             toast_error ''Prompt updated, but failed to create new version.''
               (console_error ''Failed to create new prompt version:'' w)"
    using Inr assms by (simp add: commit_new_version_def Let_def insert_version_def)
  then show ?thesis by (intro exI[of _ w]) simp
qed

lemma commit_new_version_inserted:
  assumes "\<not> fail_versions_insert e"
  shows "\<exists>w1 v. prompts w1 = prompts w \<and> tags w1 = tags w \<and> prompt_tags w1 = prompt_tags w \<and>
           toasts w1 = toasts w \<and>
           prompt_versions w1 = prompt_versions w @ [v] \<and>
           v = \<lparr>v_id = next_uuid w, v_prompt_id = i, v_branch_id = None, v_content = JString nb,
                v_version_number = (case fetched_latest e w i of None \<Rightarrow> 1
                                    | Some l \<Rightarrow> v_version_number l + 1),
                v_is_latest = True,
                v_change_log = change_log_of (diff_cleanupSemantic (diff_main bc nb)),
                v_parent_version_id = map_option v_id (fetched_latest e w i), v_metadata = []\<rparr> \<and>
           commit_new_version e w i nb bc =
             (case fetched_latest e w i of None \<Rightarrow> w1 | Some l \<Rightarrow> demote_version e w1 (v_id l))"
proof (cases "select_latest_version e w i")
  case (Inl err)
  let ?w0 = "if err \<noteq> PGRST116 then console_error ''Error fetching latest version:'' w else w"
  let ?v = "\<lparr>v_id = next_uuid w, v_prompt_id = i, v_branch_id = None, v_content = JString nb,
                v_version_number = 1, v_is_latest = True,
                v_change_log = change_log_of (diff_cleanupSemantic (diff_main bc nb)),
                v_parent_version_id = None, v_metadata = []\<rparr>"
  let ?w1 = "?w0\<lparr>prompt_versions := prompt_versions ?w0 @ [?v], next_uuid := Suc (next_uuid ?w0)\<rparr>"
  have f: "fetched_latest e w i = None" using Inl by (simp add: fetched_latest_def)
  have c: "commit_new_version e w i nb bc = ?w1"
    using Inl assms by (simp add: commit_new_version_def Let_def insert_version_def)
  have "prompts ?w1 = prompts w \<and> tags ?w1 = tags w \<and> prompt_tags ?w1 = prompt_tags w \<and>
           toasts ?w1 = toasts w \<and> prompt_versions ?w1 = prompt_versions w @ [?v]"
    by simp
  with f c show ?thesis by (intro exI[of _ ?w1] exI[of _ ?v]) simp
next
  case (Inr l)
  let ?v = "\<lparr>v_id = next_uuid w, v_prompt_id = i, v_branch_id = None, v_content = JString nb,
                v_version_number = v_version_number l + 1, v_is_latest = True,
                v_change_log = change_log_of (diff_cleanupSemantic (diff_main bc nb)),
                v_parent_version_id = Some (v_id l), v_metadata = []\<rparr>"
  let ?w1 = "w\<lparr>prompt_versions := prompt_versions w @ [?v], next_uuid := Suc (next_uuid w)\<rparr>"
  have f: "fetched_latest e w i = Some l" using Inr by (simp add: fetched_latest_def)
  have c: "commit_new_version e w i nb bc = demote_version e ?w1 (v_id l)"
    using Inr assms by (simp add: commit_new_version_def Let_def insert_version_def)
  have "prompts ?w1 = prompts w \<and> tags ?w1 = tags w \<and> prompt_tags ?w1 = prompt_tags w \<and>
           toasts ?w1 = toasts w \<and> prompt_versions ?w1 = prompt_versions w @ [?v]"
    by simp
  with f c show ?thesis by (intro exI[of _ ?w1] exI[of _ ?v]) simp
qed

lemma demote_version_frame:
  "prompts (demote_version e w vid) = prompts w"
  "tags (demote_version e w vid) = tags w"
  "prompt_tags (demote_version e w vid) = prompt_tags w"
  "toasts (demote_version e w vid) = toasts w"
  "next_uuid (demote_version e w vid) = next_uuid w"
  by (simp_all add: demote_version_def)

lemma demote_version_versions:
  "prompt_versions (demote_version e w vid) =
     (if fail_versions_update e then prompt_versions w
      else map (demote vid) (prompt_versions w))"
  unfolding demote_version_def by (cases "fail_versions_update e") simp_all

lemma demote_simps [simp]:
  "v_prompt_id (demote vid v) = v_prompt_id v"
  "v_branch_id (demote vid v) = v_branch_id v"
  "v_version_number (demote vid v) = v_version_number v"
  "v_id (demote vid v) = v_id v"
  "v_content (demote vid v) = v_content v"
  "v_change_log (demote vid v) = v_change_log v"
  "v_parent_version_id (demote vid v) = v_parent_version_id v"
  by (simp_all add: demote_def)

lemma commit_new_version_last:
  assumes "\<not> fail_versions_insert e"
  shows "\<exists>vs v. prompt_versions (commit_new_version e w i nb bc) = vs @ [v] \<and>
           length vs = length (prompt_versions w) \<and>
           v_prompt_id v = i \<and> v_branch_id v = None \<and> v_content v = JString nb \<and>
           v_version_number v = (case fetched_latest e w i of None \<Rightarrow> 1
                                    | Some l \<Rightarrow> v_version_number l + 1) \<and>
           v_parent_version_id v = map_option v_id (fetched_latest e w i) \<and>
           v_change_log v = change_log_of (diff_cleanupSemantic (diff_main bc nb))"
proof -
  from commit_new_version_inserted[OF assms] obtain w1 v where
    a: "prompt_versions w1 = prompt_versions w @ [v]" and
    v: "v = \<lparr>v_id = next_uuid w, v_prompt_id = i, v_branch_id = None, v_content = JString nb,
                v_version_number = (case fetched_latest e w i of None \<Rightarrow> 1
                                    | Some l \<Rightarrow> v_version_number l + 1),
                v_is_latest = True,
                v_change_log = change_log_of (diff_cleanupSemantic (diff_main bc nb)),
                v_parent_version_id = map_option v_id (fetched_latest e w i), v_metadata = []\<rparr>" and
    c: "commit_new_version e w i nb bc =
             (case fetched_latest e w i of None \<Rightarrow> w1 | Some l \<Rightarrow> demote_version e w1 (v_id l))"
    by blast
  show ?thesis
  proof (cases "fetched_latest e w i")
    case None
    with a v c show ?thesis by simp
  next
    case (Some l)
    let ?d = "demote (v_id l)"
    show ?thesis
    proof (cases "fail_versions_update e")
      case True
      with Some a v c show ?thesis by (simp add: demote_version_versions)
    next
      case False
      with Some a c have "prompt_versions (commit_new_version e w i nb bc) =
          map ?d (prompt_versions w) @ [?d v]"
        by (simp add: demote_version_versions)
      moreover have "v_prompt_id (?d v) = i \<and> v_branch_id (?d v) = None \<and> v_content (?d v) = JString nb \<and>
           v_version_number (?d v) = (case fetched_latest e w i of None \<Rightarrow> 1
                                    | Some l \<Rightarrow> v_version_number l + 1) \<and>
           v_parent_version_id (?d v) = map_option v_id (fetched_latest e w i) \<and>
           v_change_log (?d v) = change_log_of (diff_cleanupSemantic (diff_main bc nb))"
        using v by simp
      ultimately show ?thesis
        by (intro exI[of _ "map ?d (prompt_versions w)"] exI[of _ "?d v"]) simp
    qed
  qed
qed

lemma change_log_example:
  "change_log_of (diff_cleanupSemantic (diff_main ''Hello'' ''Hello world'')) =
     ''Updated body. 1 additions, 0 deletions.''"
  by (simp add: change_log_of_def diff_main_def commonSuffix_def DIFF_EQUAL_def DIFF_INSERT_def
      DIFF_DELETE_def digit_char_def nat_to_string_small)

lemma change_log_of_counts:
  "change_log_of diffs =
     ''Updated body. ''
     @ nat_to_string (length (filter (\<lambda>d. fst d = DIFF_INSERT) diffs)) @ '' additions, ''
     @ nat_to_string (length (filter (\<lambda>d. fst d = DIFF_DELETE) diffs)) @ '' deletions.''"
  by (simp add: change_log_of_def Let_def DIFF_INSERT_def DIFF_DELETE_def)


text \<open>
  Claim C5 says that a committed body change leaves a new version whose \<open>change_log\<close> is
  \<open>"Updated body. {insertions} additions, {deletions} deletions."\<close>, for instance
  \<open>"Updated body. 1 additions, 0 deletions."\<close> when \<open>"Hello"\<close> becomes \<open>"Hello world"\<close>. The
  versioning step builds exactly that string from the script it is given
  (\<open>change_log_of_counts\<close>), and handed the old and the new body it writes the version
  (\<open>versioning_step_example\<close>). But \<open>updatePrompt\<close> does not hand it the old body. On the
  claim's own example, the prompt whose stored body is \<open>"Hello"\<close> and whose only version
  is number 1, updated with the body \<open>"Hello world"\<close> while no store call fails: step 1
  stores \<open>"Hello world"\<close>, step 3 reads \<open>"Hello world"\<close> back as the body to compare
  with, the guard finds no change, and the call returns with the version table as it was:
  no second version, no \<open>change_log\<close>, no toast.
\<close>

theorem changed_body_update_writes_no_version:
  "prompts world_hello 1 = Some greeting \<and> p_body greeting = Some ''Hello'' \<and>
   prompt_versions world_hello = [greeting_v1] \<and>
   updatePrompt env_ok world_hello 1 (no_fields\<lparr>f_body := Some ''Hello world''\<rparr>) None =
     Inr (world_hello\<lparr>prompts := [1 \<mapsto> greeting\<lparr>p_body := Some ''Hello world''\<rparr>]\<rparr>,
          greeting\<lparr>p_body := Some ''Hello world''\<rparr>, None) \<and>
   select_body env_ok (world_hello\<lparr>prompts := [1 \<mapsto> greeting\<lparr>p_body := Some ''Hello world''\<rparr>]\<rparr>) 1 =
     Some ''Hello world'' \<and>
   prompt_versions (world_hello\<lparr>prompts := [1 \<mapsto> greeting\<lparr>p_body := Some ''Hello world''\<rparr>]\<rparr>) =
     [greeting_v1] \<and>
   toasts (world_hello\<lparr>prompts := [1 \<mapsto> greeting\<lparr>p_body := Some ''Hello world''\<rparr>]\<rparr>) = []"
  by (simp add: updatePrompt_def env_ok_def has_keys_def no_fields_def update_prompt_def
      world_hello_def Let_def apply_fields_def greeting_def select_body_def
      updatePrompt_versioning_def body_changed_def)

lemma updatePrompt_returns:
  assumes "user e \<noteq> None"
    and "(if has_keys f then update_prompt e w i f else select_prompt e w i) = Inr (w1, row)"
  shows "\<exists>w' pt. updatePrompt e w i f nts = Inr (w', row, pt)"
proof -
  from assms(1) obtain uid where u: "user e = Some uid" by auto
  show ?thesis
    using assms(2) by (simp add: updatePrompt_def u Let_def split: prod.splits)
qed

text \<open>
  Claim C9. A failed insert of the new version is not fatal for the update. When the
  versioning step is entered with a changed body and the insert fails, the step leaves
  the prompt table as it found it (the scalar update that preceded it is not rolled
  back), leaves every version row as it was (the previous latest version keeps its flag:
  it is demoted only after a successful insert), and reports the failure with a toast of
  its own, \<open>"Prompt updated, but failed to create new version."\<close>. And \<open>updatePrompt\<close>
  returns whenever a user is signed in and its first store call succeeded: nothing that
  happens to the version table makes it throw.
\<close>

theorem version_insert_failure_is_not_fatal:
  assumes "body_changed newBody bodyForComparison"
    and "fail_versions_insert e"
  shows "prompts (updatePrompt_versioning e w i newBody bodyForComparison) = prompts w \<and>
         tags (updatePrompt_versioning e w i newBody bodyForComparison) = tags w \<and>
         prompt_tags (updatePrompt_versioning e w i newBody bodyForComparison) = prompt_tags w \<and>
         prompt_versions (updatePrompt_versioning e w i newBody bodyForComparison) = prompt_versions w \<and>
         toasts (updatePrompt_versioning e w i newBody bodyForComparison) =
           toasts w @ [''Prompt updated, but failed to create new version.''] \<and>
         (\<forall>w1 row. user e \<noteq> None \<and>
             (if has_keys updates then update_prompt e w0 i updates else select_prompt e w0 i) = Inr (w1, row)
             \<longrightarrow> (\<exists>w' pt. updatePrompt e w0 i updates tagNames = Inr (w', row, pt)))"
proof -
  from commit_new_version_failed[OF assms(2)] obtain w1 where
    "prompts w1 = prompts w" "tags w1 = tags w" "prompt_tags w1 = prompt_tags w"
    "prompt_versions w1 = prompt_versions w" "toasts w1 = toasts w"
    "commit_new_version e w i (the newBody) (the bodyForComparison) =
             toast_error ''Prompt updated, but failed to create new version.''
               (console_error ''Failed to create new prompt version:'' w1)"
    by blast
  with assms(1) have "prompts (updatePrompt_versioning e w i newBody bodyForComparison) = prompts w \<and>
         tags (updatePrompt_versioning e w i newBody bodyForComparison) = tags w \<and>
         prompt_tags (updatePrompt_versioning e w i newBody bodyForComparison) = prompt_tags w \<and>
         prompt_versions (updatePrompt_versioning e w i newBody bodyForComparison) = prompt_versions w \<and>
         toasts (updatePrompt_versioning e w i newBody bodyForComparison) =
           toasts w @ [''Prompt updated, but failed to create new version.'']"
    by (simp add: updatePrompt_versioning_def)
  with updatePrompt_returns show ?thesis by blast
qed

theorem version_insert_failure_is_not_fatal_witness:
  "body_changed (Some ''Hello world'') (Some ''Hello'') \<and> fail_versions_insert env_no_version_insert \<and>
   prompts (updatePrompt_versioning env_no_version_insert world_hello 1 (Some ''Hello world'') (Some ''Hello''))
     = prompts world_hello \<and>
   prompt_versions (updatePrompt_versioning env_no_version_insert world_hello 1 (Some ''Hello world'') (Some ''Hello''))
     = [greeting_v1] \<and>
   toasts (updatePrompt_versioning env_no_version_insert world_hello 1 (Some ''Hello world'') (Some ''Hello''))
     = [''Prompt updated, but failed to create new version.''] \<and>
   (\<exists>w' pt. updatePrompt env_no_version_insert world_hello 1 (no_fields\<lparr>f_body := Some ''Hello world''\<rparr>) None
        = Inr (w', greeting\<lparr>p_body := Some ''Hello world''\<rparr>, pt))"
proof -
  have b: "body_changed (Some ''Hello world'') (Some ''Hello'')" by (simp add: body_changed_def)
  have f: "fail_versions_insert env_no_version_insert" by (simp add: env_no_version_insert_def)
  have u: "user env_no_version_insert \<noteq> None" by (simp add: env_no_version_insert_def env_ok_def)
  have s: "(if has_keys (no_fields\<lparr>f_body := Some ''Hello world''\<rparr>)
            then update_prompt env_no_version_insert world_hello 1 (no_fields\<lparr>f_body := Some ''Hello world''\<rparr>)
            else select_prompt env_no_version_insert world_hello 1) =
           Inr (world_hello\<lparr>prompts := [1 \<mapsto> greeting\<lparr>p_body := Some ''Hello world''\<rparr>]\<rparr>,
                greeting\<lparr>p_body := Some ''Hello world''\<rparr>)"
    by (simp add: has_keys_def no_fields_def update_prompt_def env_no_version_insert_def env_ok_def
        world_hello_def apply_fields_def greeting_def)
  from version_insert_failure_is_not_fatal[OF b f, of world_hello 1 "no_fields\<lparr>f_body := Some ''Hello world''\<rparr>" world_hello None] b f u s
  show ?thesis by (simp add: world_hello_def)
qed

text \<open>
  Claim C3. Committing an unchanged body is a no-op for the version chain. The versioning
  step does nothing when the new body equals the body it is compared with, and nothing
  when the update carries no body at all (an edit of the title or the metadata only);
  and a call of \<open>updatePrompt\<close> whose body equals the document's stored body, or that
  carries no body, leaves the version table as it was.
\<close>

theorem unchanged_body_creates_no_version:
  "updatePrompt_versioning e w i body body = w \<and>
   updatePrompt_versioning e w i None bodyForComparison = w \<and>
   (\<forall>w' row pt orig.
      updatePrompt e w i updates tagNames = Inr (w', row, pt) \<and> prompts w i = Some orig \<and>
      (f_body updates = None \<or> f_body updates = p_body orig)
      \<longrightarrow> prompt_versions w' = prompt_versions w)"
  using updatePrompt_no_version by (simp add: updatePrompt_versioning_def) blast

lemma updatePrompt_same_body_example:
  "\<exists>w' row pt. updatePrompt env_ok world_hello 1
                  (no_fields\<lparr>f_title := Some ''Salutation'', f_body := Some ''Hello''\<rparr>) None
                = Inr (w', row, pt)"
  by (simp add: updatePrompt_def env_ok_def has_keys_def no_fields_def update_prompt_def
      world_hello_def Let_def)

theorem unchanged_body_creates_no_version_witness:
  "\<exists>w' row pt. updatePrompt env_ok world_hello 1
                  (no_fields\<lparr>f_title := Some ''Salutation'', f_body := Some ''Hello''\<rparr>) None
                = Inr (w', row, pt) \<and>
               prompts world_hello 1 = Some greeting \<and>
               f_body (no_fields\<lparr>f_title := Some ''Salutation'', f_body := Some ''Hello''\<rparr>) = p_body greeting \<and>
               prompt_versions w' = [greeting_v1]"
proof -
  from updatePrompt_same_body_example obtain w' row pt where
    r: "updatePrompt env_ok world_hello 1
                  (no_fields\<lparr>f_title := Some ''Salutation'', f_body := Some ''Hello''\<rparr>) None
                = Inr (w', row, pt)" by blast
  have g: "prompts world_hello 1 = Some greeting" by (simp add: world_hello_def)
  have b: "f_body (no_fields\<lparr>f_title := Some ''Salutation'', f_body := Some ''Hello''\<rparr>) = p_body greeting"
    by (simp add: greeting_def)
  from unchanged_body_creates_no_version[of env_ok world_hello 1 "Some ''Hello''" "Some ''Hello''"
      "no_fields\<lparr>f_title := Some ''Salutation'', f_body := Some ''Hello''\<rparr>" None] r g b
  have "prompt_versions w' = prompt_versions world_hello" by blast
  with r g b show ?thesis by (simp add: world_hello_def) 
qed

lemma updatePrompt_world:
  assumes "updatePrompt e w i f nts = Inr (w', row, pt)"
  shows "prompts w' = (if has_keys f then (prompts w)(i \<mapsto> row) else prompts w) \<and>
         (\<exists>orig. prompts w i = Some orig \<and> row = (if has_keys f then apply_fields f orig else orig))"
proof -
  from updatePrompt_Inr[OF assms] obtain orig w2 where
    o: "prompts w i = Some orig" and
    r: "row = (if has_keys f then apply_fields f orig else orig)" and
    p2: "prompts w2 = (if has_keys f then (prompts w)(i \<mapsto> row) else prompts w)" and
    w': "w' = updatePrompt_versioning e w2 i (f_body f) (select_body e w2 i)"
    by blast
  have "\<not> body_changed (f_body f) (select_body e w2 i)"
  proof (cases "f_body f")
    case None
    then show ?thesis by simp
  next
    case (Some nb)
    then have hk: "has_keys f" by (simp add: has_keys_def)
    with r Some have "p_body row = Some nb" by (simp add: apply_fields_def)
    with hk p2 have "select_body e w2 i = None \<or> select_body e w2 i = Some nb"
      by (simp add: select_body_def)
    with Some show ?thesis by auto
  qed
  with w' have "w' = w2" by (simp add: updatePrompt_versioning_def)
  with o r p2 show ?thesis by blast
qed

text \<open>
  Claim C10. No version is written when the new body is the empty string or the stored
  body is empty or absent, even when the two differ: the versioning step does something
  only when both bodies are present, non-empty and unequal. A call of \<open>updatePrompt\<close>
  with an empty new body, or on a document whose stored body is empty or null, leaves the
  version table as it was; clearing a body stores the empty body and records nothing in
  the history.
\<close>

theorem empty_body_creates_no_version:
  "((newBody = Some [] \<or> bodyForComparison = Some [] \<or> bodyForComparison = None)
      \<longrightarrow> updatePrompt_versioning e w i newBody bodyForComparison = w) \<and>
   (updatePrompt_versioning e w i newBody bodyForComparison \<noteq> w
      \<longrightarrow> (\<exists>nb bc. newBody = Some nb \<and> bodyForComparison = Some bc \<and> nb \<noteq> [] \<and> bc \<noteq> [] \<and> nb \<noteq> bc)) \<and>
   (\<forall>w' row pt orig.
      updatePrompt e w i updates tagNames = Inr (w', row, pt) \<and> prompts w i = Some orig \<and>
      (f_body updates = Some [] \<or> p_body orig = Some [] \<or> p_body orig = None)
      \<longrightarrow> prompt_versions w' = prompt_versions w) \<and>
   (\<forall>w' row pt.
      updatePrompt e w i updates tagNames = Inr (w', row, pt) \<and> f_body updates = Some []
      \<longrightarrow> prompts w' i = Some row \<and> p_body row = Some [] \<and> prompt_versions w' = prompt_versions w)"
proof -
  have a: "(newBody = Some [] \<or> bodyForComparison = Some [] \<or> bodyForComparison = None)
      \<longrightarrow> updatePrompt_versioning e w i newBody bodyForComparison = w"
    by (auto simp: updatePrompt_versioning_def body_changed_def split: option.splits)
  have b: "updatePrompt_versioning e w i newBody bodyForComparison \<noteq> w
      \<longrightarrow> (\<exists>nb bc. newBody = Some nb \<and> bodyForComparison = Some bc \<and> nb \<noteq> [] \<and> bc \<noteq> [] \<and> nb \<noteq> bc)"
    by (auto simp: updatePrompt_versioning_def body_changed_def split: option.splits)
  have c: "\<forall>w' row pt orig.
      updatePrompt e w i updates tagNames = Inr (w', row, pt) \<and> prompts w i = Some orig \<and>
      (f_body updates = Some [] \<or> p_body orig = Some [] \<or> p_body orig = None)
      \<longrightarrow> prompt_versions w' = prompt_versions w"
    using updatePrompt_no_version by blast
  have d: "\<forall>w' row pt.
      updatePrompt e w i updates tagNames = Inr (w', row, pt) \<and> f_body updates = Some []
      \<longrightarrow> prompts w' i = Some row \<and> p_body row = Some [] \<and> prompt_versions w' = prompt_versions w"
  proof (intro allI impI)
    fix w' row pt
    assume h: "updatePrompt e w i updates tagNames = Inr (w', row, pt) \<and> f_body updates = Some []"
    then have hk: "has_keys updates" by (simp add: has_keys_def)
    from h updatePrompt_world[of e w i updates tagNames w' row pt] hk
    have "prompts w' i = Some row \<and> p_body row = Some []"
      by (auto simp: apply_fields_def)
    with h updatePrompt_no_version show "prompts w' i = Some row \<and> p_body row = Some [] \<and> prompt_versions w' = prompt_versions w"
      by blast
  qed
  from a b c d show ?thesis by blast
qed

lemma updatePrompt_clear_body_example:
  "\<exists>w' row pt. updatePrompt env_ok world_hello 1 (no_fields\<lparr>f_body := Some []\<rparr>) None = Inr (w', row, pt)"
  by (simp add: updatePrompt_def env_ok_def has_keys_def no_fields_def update_prompt_def
      world_hello_def Let_def)

theorem empty_body_creates_no_version_witness:
  "updatePrompt_versioning env_ok world_hello 1 (Some []) (Some ''Hello'') = world_hello \<and>
   (\<exists>w' row pt. updatePrompt env_ok world_hello 1 (no_fields\<lparr>f_body := Some []\<rparr>) None = Inr (w', row, pt) \<and>
       f_body (no_fields\<lparr>f_body := Some []\<rparr>) = Some [] \<and>
       prompts w' 1 = Some row \<and> p_body row = Some [] \<and> prompt_versions w' = [greeting_v1])"
proof -
  from updatePrompt_clear_body_example obtain w' row pt where
    r: "updatePrompt env_ok world_hello 1 (no_fields\<lparr>f_body := Some []\<rparr>) None = Inr (w', row, pt)" by blast
  have b: "f_body (no_fields\<lparr>f_body := Some []\<rparr>) = Some []" by simp
  note t = empty_body_creates_no_version[of "Some []" "Some ''Hello''" env_ok world_hello 1
      "no_fields\<lparr>f_body := Some []\<rparr>" None]
  from t have 1: "updatePrompt_versioning env_ok world_hello 1 (Some []) (Some ''Hello'') = world_hello"
    by blast
  from t r b have "prompts w' 1 = Some row \<and> p_body row = Some [] \<and> prompt_versions w' = prompt_versions world_hello"
    by blast
  with 1 r b show ?thesis by (simp add: world_hello_def)
qed

section \<open>Version numbers and version contents\<close>



lemma updatePrompt_versions_after:
  "prompt_versions (world_after (updatePrompt e w i f nts) w) = prompt_versions w"
proof (cases "updatePrompt e w i f nts")
  case (Inl err)
  then show ?thesis by (simp add: world_after_def)
next
  case (Inr x)
  obtain w' row pt where x: "x = (w', row, pt)" by (cases x) auto
  with Inr updatePrompt_no_version have "prompt_versions w' = prompt_versions w" by blast
  with Inr x show ?thesis by (simp add: world_after_def)
qed


text \<open>
  Every version the hook writes holds a body string (or the null body of a fork) as its
  content, and the restore handler throws on each of them.
\<close>

lemma onRestore_body_only:
  "v_content v = JString s \<or> v_content v = JNull \<Longrightarrow> onRestore v = Inl (JsError ''TypeError'')"
  by (auto simp: onRestore_def)

lemma createPrompt_writes_body_only:
  assumes "createPrompt e w f nts = Inr (w', pid, row, tgs)"
  shows "\<forall>v \<in> set (prompt_versions w').
           v \<in> set (prompt_versions w) \<or> onRestore v = Inl (JsError ''TypeError'')"
  using createPrompt_versions[OF assms]
  by (cases "fail_versions_insert e") (auto simp: onRestore_def)

lemma forkPrompt_writes_body_only:
  assumes "forkPrompt e w promptId title = Inr (w', fid, row, tgs)"
  shows "\<forall>v \<in> set (prompt_versions w').
           v \<in> set (prompt_versions w) \<or> onRestore v = Inl (JsError ''TypeError'')"
  using forkPrompt_versions[OF assms]
  by (cases "fail_versions_insert e")
     (auto simp: onRestore_def json_of_body_def split: option.splits)

lemma commit_new_version_writes_body_only:
  assumes "\<not> fail_versions_insert e"
  shows "\<exists>vs v. prompt_versions (commit_new_version e w i nb bc) = vs @ [v] \<and>
           onRestore v = Inl (JsError ''TypeError'')"
proof -
  from commit_new_version_last[OF assms] obtain vs v where
    "prompt_versions (commit_new_version e w i nb bc) = vs @ [v]" "v_content v = JString nb"
    by blast
  then show ?thesis using onRestore_body_only by blast
qed

text \<open>
  Claim C8 says that a version's content is a complete snapshot: body, title, tags and
  model. The hook does not write such a content. Creating a prompt with a title, a body,
  model metadata and a tag stores a version whose content is the body string alone, with
  empty metadata, and the restore handler of the editor page, which reads the title, the
  tags and the model from the content, throws on that version.
\<close>

theorem created_version_holds_body_only:
  "\<exists>w' row tgs v.
     createPrompt env_ok world_hello
       (no_fields\<lparr>f_title := Some ''T'', f_body := Some ''B'',
                   f_metadata := Some [(''model'', ''GPT-4''), (''parallelText'', ''P'')]\<rparr>)
       (Some [''gpt4'']) = Inr (w', 4, row, tgs) \<and>
     p_title row = Some ''T'' \<and> tgs = [\<lparr>t_id = 2, t_name = ''gpt4''\<rparr>] \<and>
     prompt_versions w' = [greeting_v1, v] \<and>
     v_content v = JString ''B'' \<and> v_metadata v = [] \<and>
     onRestore v = Inl (JsError ''TypeError'')"
  by (simp add: createPrompt_def env_ok_def insert_prompt_def world_hello_def Let_def
      upsert_tag_def insert_prompt_tag_def insert_version_def promptData_def no_fields_def
      initial_version_def onRestore_def)

section \<open>The versioning step and the invariants\<close>















lemma commit_after_failed_demote:
  assumes "fail_versions_update e" and "\<not> fail_versions_insert e"
  shows "\<exists>v. prompt_versions (commit_new_version e w i nb bc) = prompt_versions w @ [v] \<and>
             v_is_latest v"
proof -
  from commit_new_version_inserted[OF assms(2)] obtain w1 v where
    "prompt_versions w1 = prompt_versions w @ [v]"
    "v = \<lparr>v_id = next_uuid w, v_prompt_id = i, v_branch_id = None, v_content = JString nb,
                v_version_number = (case fetched_latest e w i of None \<Rightarrow> 1
                                    | Some l \<Rightarrow> v_version_number l + 1),
                v_is_latest = True,
                v_change_log = change_log_of (diff_cleanupSemantic (diff_main bc nb)),
                v_parent_version_id = map_option v_id (fetched_latest e w i), v_metadata = []\<rparr>"
    "commit_new_version e w i nb bc =
             (case fetched_latest e w i of None \<Rightarrow> w1 | Some l \<Rightarrow> demote_version e w1 (v_id l))"
    by blast
  with assms(1) show ?thesis
    by (cases "fetched_latest e w i") (simp_all add: demote_version_versions)
qed


lemma failed_demote_example:
  "prompt_versions (commit_new_version env_no_version_update world_hello 1 ''Hello world'' ''Hello'') =
     [greeting_v1,
      \<lparr>v_id = 4, v_prompt_id = 1, v_branch_id = None, v_content = JString ''Hello world'',
       v_version_number = 2, v_is_latest = True,
       v_change_log = ''Updated body. 1 additions, 0 deletions.'',
       v_parent_version_id = Some 3, v_metadata = []\<rparr>] \<and>
   \<not> I1 (commit_new_version env_no_version_update world_hello 1 ''Hello world'' ''Hello'')"
proof -
  have v: "prompt_versions (commit_new_version env_no_version_update world_hello 1 ''Hello world'' ''Hello'') =
     [greeting_v1,
      \<lparr>v_id = 4, v_prompt_id = 1, v_branch_id = None, v_content = JString ''Hello world'',
       v_version_number = 2, v_is_latest = True,
       v_change_log = ''Updated body. 1 additions, 0 deletions.'',
       v_parent_version_id = Some 3, v_metadata = []\<rparr>]"
    by (simp add: commit_new_version_def Let_def select_latest_version_def insert_version_def
        demote_version_def env_no_version_update_def env_ok_def world_hello_def greeting_v1_def
        change_log_example)
  then show ?thesis
    by (simp add: I1_def one_latest_def scope_versions_def greeting_v1_def)
qed

lemma branched_example:
  "wf_world world_branched \<and> I1 world_branched \<and> I2 world_branched \<and>
   \<not> I1 (commit_new_version env_ok world_branched 1 ''Hello world'' ''Hello'') \<and>
   \<not> I2 (commit_new_version env_ok world_branched 1 ''Hello world'' ''Hello'')"
proof -
  have v: "prompt_versions (commit_new_version env_ok world_branched 1 ''Hello world'' ''Hello'') =
     [greeting_v1,
      \<lparr>v_id = 4, v_prompt_id = 1, v_branch_id = Some 9, v_content = JString ''Hi'',
            v_version_number = 1, v_is_latest = False, v_change_log = ''Branched.'',
            v_parent_version_id = Some 3, v_metadata = []\<rparr>,
      \<lparr>v_id = 5, v_prompt_id = 1, v_branch_id = Some 9, v_content = JString ''Hi there'',
            v_version_number = 2, v_is_latest = False, v_change_log = ''Extended.'',
            v_parent_version_id = Some 4, v_metadata = []\<rparr>,
      \<lparr>v_id = 6, v_prompt_id = 1, v_branch_id = None, v_content = JString ''Hello world'',
       v_version_number = 3, v_is_latest = True,
       v_change_log = ''Updated body. 1 additions, 0 deletions.'',
       v_parent_version_id = Some 5, v_metadata = []\<rparr>]"
    by (simp add: commit_new_version_def Let_def select_latest_version_def insert_version_def
        demote_version_def demote_def env_ok_def world_branched_def world_hello_def greeting_v1_def
        change_log_example)
  have "wf_world world_branched"
    by (simp add: wf_world_def world_branched_def world_hello_def greeting_v1_def)
  moreover have "I1 world_branched \<and> I2 world_branched"
    by (simp add: I1_def I2_def one_latest_def gap_free_def scope_versions_def world_branched_def
        world_hello_def greeting_v1_def)
  moreover from v have "\<not> I1 (commit_new_version env_ok world_branched 1 ''Hello world'' ''Hello'') \<and>
   \<not> I2 (commit_new_version env_ok world_branched 1 ''Hello world'' ''Hello'')"
    by (simp add: I1_def I2_def one_latest_def gap_free_def scope_versions_def greeting_v1_def)
  ultimately show ?thesis by blast
qed






















section \<open>Well-formedness under the mutations\<close>

lemma wf_console_error [simp]: "wf_world (console_error m w) = wf_world w"
  by (simp add: wf_world_def)

lemma wf_toast_error [simp]: "wf_world (toast_error m w) = wf_world w"
  by (simp add: wf_world_def)

lemma wf_insert_prompt:
  assumes "wf_world w" and "insert_prompt e w row = Inr (w1, pid, r)"
  shows "wf_world w1 \<and> pid \<in> dom (prompts w1)"
proof -
  from assms(2) have w1: "w1 = w\<lparr>prompts := (prompts w)(next_uuid w \<mapsto> row), next_uuid := Suc (next_uuid w)\<rparr>"
    and p: "pid = next_uuid w"
    by (auto simp: insert_prompt_def split: if_splits)
  from assms(1) show ?thesis unfolding w1 p wf_world_def
    by (auto simp: less_Suc_eq)
qed

lemma wf_update_prompt:
  assumes "wf_world w" and "update_prompt e w i f = Inr (w1, r)"
  shows "wf_world w1 \<and> i \<in> dom (prompts w1)"
proof -
  from assms(2) obtain orig where o: "prompts w i = Some orig"
    and w1: "w1 = w\<lparr>prompts := (prompts w)(i \<mapsto> apply_fields f orig)\<rparr>"
    by (auto simp: update_prompt_def split: if_splits option.splits)
  from o have "insert i (dom (prompts w)) = dom (prompts w)" by auto
  with assms(1) show ?thesis unfolding w1 wf_world_def by force
qed

lemma wf_select_prompt:
  assumes "wf_world w" and "select_prompt e w i = Inr (w1, r)"
  shows "wf_world w1 \<and> i \<in> dom (prompts w1)"
  using assms by (auto simp: select_prompt_def split: if_splits option.splits)

lemma wf_upsert_tag:
  assumes "wf_world w" and "upsert_tag e w n = (w1, r)"
  shows "wf_world w1 \<and> dom (prompts w1) = dom (prompts w)"
proof (cases "fail_tags_upsert e n")
  case True
  with assms show ?thesis by (simp add: upsert_tag_def)
next
  case False
  show ?thesis
  proof (cases "find (\<lambda>t. t_name t = n) (tags w)")
    case None
    with False assms(2) have w1: "w1 = w\<lparr>tags := tags w @ [\<lparr>t_id = next_uuid w, t_name = n\<rparr>],
                   next_uuid := Suc (next_uuid w)\<rparr>"
      by (simp add: upsert_tag_def)
    from assms(1) have "next_uuid w \<notin> t_id ` set (tags w)" by (auto simp: wf_world_def)
    with assms(1) show ?thesis unfolding w1 wf_world_def
      by (auto simp: less_Suc_eq)
  next
    case (Some t)
    with False assms show ?thesis by (simp add: upsert_tag_def)
  qed
qed

lemma wf_insert_prompt_tag:
  assumes "wf_world w" and "pid \<in> dom (prompts w)" and "insert_prompt_tag e w pid tid = (w1, r)"
  shows "wf_world w1 \<and> dom (prompts w1) = dom (prompts w)"
  using assms by (cases "fail_prompt_tags_insert e pid tid")
    (force simp: insert_prompt_tag_def wf_world_def)+

lemma wf_delete_prompt_tags:
  assumes "wf_world w" and "delete_prompt_tags e w pid = (w1, r)"
  shows "wf_world w1 \<and> dom (prompts w1) = dom (prompts w)"
  using assms by (cases "fail_prompt_tags_delete e")
    (force simp: delete_prompt_tags_def wf_world_def)+

lemma wf_insert_version:
  assumes "wf_world w" and "v_prompt_id row \<in> dom (prompts w)" and "insert_version e w row = (w1, r)"
  shows "wf_world w1 \<and> dom (prompts w1) = dom (prompts w)"
proof (cases "fail_versions_insert e")
  case True
  with assms show ?thesis by (simp add: insert_version_def)
next
  case False
  with assms(3) have w1: "w1 = w\<lparr>prompt_versions := prompt_versions w @ [row\<lparr>v_id := next_uuid w\<rparr>],
              next_uuid := Suc (next_uuid w)\<rparr>"
    by (simp add: insert_version_def)
  from assms(1) have "next_uuid w \<notin> v_id ` set (prompt_versions w)" by (auto simp: wf_world_def)
  with assms(1,2) show ?thesis unfolding w1 wf_world_def
    by (auto simp: less_Suc_eq)
qed

lemma wf_demote_version:
  assumes "wf_world w"
  shows "wf_world (demote_version e w vid) \<and> dom (prompts (demote_version e w vid)) = dom (prompts w)"
proof -
  have "v_id \<circ> demote vid = v_id" by (simp add: fun_eq_iff)
  with assms show ?thesis
    by (cases "fail_versions_update e") (force simp: demote_version_def wf_world_def)+
qed

lemma wf_upsert_and_link_tags:
  assumes "wf_world w" and "pid \<in> dom (prompts w)"
    and "upsert_and_link_tags e pid ns (w, acc) = (w', acc')"
  shows "wf_world w' \<and> dom (prompts w') = dom (prompts w)"
  using assms
proof (induction ns arbitrary: w acc)
  case Nil
  then show ?case by simp
next
  case (Cons n ns)
  obtain w1 r where up: "upsert_tag e w n = (w1, r)" by (cases "upsert_tag e w n") auto
  from wf_upsert_tag[OF Cons.prems(1) up] have w1: "wf_world w1" "dom (prompts w1) = dom (prompts w)"
    by auto
  show ?case
  proof (cases r)
    case (Inl err)
    with up Cons.prems(3) have "upsert_and_link_tags e pid ns (console_error ''Error upserting tag:'' w1, acc) = (w', acc')"
      by simp
    from Cons.IH[OF _ _ this] w1 Cons.prems(2) show ?thesis by simp
  next
    case (Inr t)
    obtain w2 r2 where li: "insert_prompt_tag e w1 pid (t_id t) = (w2, r2)"
      by (cases "insert_prompt_tag e w1 pid (t_id t)") auto
    from w1 Cons.prems(2) have p1: "pid \<in> dom (prompts w1)" by simp
    from wf_insert_prompt_tag[OF w1(1) p1 li] have w2: "wf_world w2" "dom (prompts w2) = dom (prompts w1)"
      by auto
    show ?thesis
    proof (cases r2)
      case (Inl err)
      with up Inr li Cons.prems(3) have "upsert_and_link_tags e pid ns (console_error ''Error creating prompt_tag link:'' w2, acc @ [t]) = (w', acc')"
        by simp
      from Cons.IH[OF _ _ this] w1 w2 Cons.prems(2) show ?thesis by simp
    next
      case (Inr u)
      with up \<open>r = Inr t\<close> li Cons.prems(3) have "upsert_and_link_tags e pid ns (w2, acc @ [t]) = (w', acc')"
        by simp
      from Cons.IH[OF _ _ this] w1 w2 Cons.prems(2) show ?thesis by simp
    qed
  qed
qed

lemma wf_link_tags:
  assumes "wf_world w" and "fid \<in> dom (prompts w)"
    and "link_tags e fid ts (w, acc) = (w', acc')"
  shows "wf_world w' \<and> dom (prompts w') = dom (prompts w)"
  using assms
proof (induction ts arbitrary: w acc)
  case Nil
  then show ?case by simp
next
  case (Cons t ts)
  obtain w1 r where li: "insert_prompt_tag e w fid (t_id t) = (w1, r)"
    by (cases "insert_prompt_tag e w fid (t_id t)") auto
  from wf_insert_prompt_tag[OF Cons.prems(1,2) li] have w1: "wf_world w1" "dom (prompts w1) = dom (prompts w)"
    by auto
  show ?case
  proof (cases r)
    case (Inl err)
    with li Cons.prems(3) have "link_tags e fid ts (console_error ''Error linking tag to forked prompt:'' w1, acc) = (w', acc')"
      by simp
    from Cons.IH[OF _ _ this] w1 Cons.prems(2) show ?thesis by simp
  next
    case (Inr u)
    with li Cons.prems(3) have "link_tags e fid ts (w1, acc @ [t]) = (w', acc')"
      by simp
    from Cons.IH[OF _ _ this] w1 Cons.prems(2) show ?thesis by simp
  qed
qed


lemma wf_after_insert_version:
  assumes "wf_world w2" and "v_prompt_id row \<in> dom (prompts w2)"
  shows "wf_world (case insert_version e w2 row of
                      (wv, Inl err) \<Rightarrow> toast_error m1 (console_error m2 wv)
                    | (wv, Inr u) \<Rightarrow> wv)"
proof -
  obtain wv r where iv: "insert_version e w2 row = (wv, r)" by (cases "insert_version e w2 row") auto
  from wf_insert_version[OF assms iv] have "wf_world wv" by simp
  with iv show ?thesis by (cases r) simp_all
qed

lemma createPrompt_wf:
  assumes "wf_world w"
  shows "wf_world (world_after (createPrompt e w f nts) w)"
proof (cases "createPrompt e w f nts")
  case (Inl err)
  with assms show ?thesis by (simp add: world_after_def)
next
  case (Inr x)
  obtain w' pid row tgs where x: "x = (w', pid, row, tgs)" by (cases x) auto
  with Inr have r: "createPrompt e w f nts = Inr (w', pid, row, tgs)" by simp
  then obtain uid where u: "user e = Some uid"
    by (auto simp: createPrompt_def split: option.splits)
  from r u obtain w1 where ins: "insert_prompt e w (promptData uid f) = Inr (w1, pid, row)"
    by (auto simp: createPrompt_def Let_def split: sum.splits prod.splits)
  from wf_insert_prompt[OF assms ins] have w1: "wf_world w1" "pid \<in> dom (prompts w1)" by auto
  obtain w2 cto where tg: "(case nts of None \<Rightarrow> (w1, []) | Some ns \<Rightarrow> upsert_and_link_tags e pid ns (w1, [])) = (w2, cto)"
    by (cases "(case nts of None \<Rightarrow> (w1, []) | Some ns \<Rightarrow> upsert_and_link_tags e pid ns (w1, []))") auto
  have w2: "wf_world w2 \<and> dom (prompts w2) = dom (prompts w1)"
  proof (cases nts)
    case None
    with tg w1 show ?thesis by auto
  next
    case (Some ns)
    with tg have "upsert_and_link_tags e pid ns (w1, []) = (w2, cto)" by simp
    from wf_upsert_and_link_tags[OF w1 this] show ?thesis .
  qed
  from r u ins tg have "w' = (case insert_version e w2
                        (initial_version pid (JString (case f_body f of None \<Rightarrow> [] | Some b \<Rightarrow> b))
                           ''Initial version.'') of
                   (wv, Inl versionError) \<Rightarrow>
                     toast_error ''Prompt created, but failed to create initial version.''
                       (console_error ''Failed to create initial prompt version:'' wv)
                 | (wv, Inr u) \<Rightarrow> wv)"
    by (auto simp add: createPrompt_def Let_def)
  moreover have "v_prompt_id (initial_version pid (JString (case f_body f of None \<Rightarrow> [] | Some b \<Rightarrow> b))
                           ''Initial version.'') \<in> dom (prompts w2)"
    using w1 w2 by simp
  ultimately have "wf_world w'" using wf_after_insert_version w2 by simp
  with Inr x show ?thesis by (simp add: world_after_def)
qed

lemma forkPrompt_wf:
  assumes "wf_world w"
  shows "wf_world (world_after (forkPrompt e w promptId title) w)"
proof (cases "forkPrompt e w promptId title")
  case (Inl err)
  with assms show ?thesis by (simp add: world_after_def)
next
  case (Inr x)
  obtain w' fid row tgs where x: "x = (w', fid, row, tgs)" by (cases x) auto
  with Inr have r: "forkPrompt e w promptId title = Inr (w', fid, row, tgs)" by simp
  then obtain uid where u: "user e = Some uid"
    by (auto simp: forkPrompt_def split: option.splits)
  from r u obtain orig otags where sel: "select_prompt_with_tags e w promptId = Inr (orig, otags)"
    by (auto simp: forkPrompt_def Let_def split: sum.splits prod.splits)
  from r u sel obtain w1 where ins: "insert_prompt e w
                       \<lparr>p_title = Some (fork_title title orig),
                        p_body = p_body orig,
                        p_metadata = p_metadata orig,
                        p_creator_id = uid, p_status = Draft, p_visibility = Private,
                        p_forked_from = Some promptId, p_fork_version = None\<rparr> = Inr (w1, fid, row)"
    by (auto simp: forkPrompt_def Let_def split: sum.splits prod.splits)
  from wf_insert_prompt[OF assms ins] have w1: "wf_world w1" "fid \<in> dom (prompts w1)" by auto
  obtain w2 fto where lk: "link_tags e fid otags (w1, []) = (w2, fto)"
    by (cases "link_tags e fid otags (w1, [])") auto
  from wf_link_tags[OF w1 lk] have w2: "wf_world w2" "dom (prompts w2) = dom (prompts w1)" by auto
  from r u sel ins lk have "w' = (case insert_version e w2
                        (initial_version fid (json_of_body (p_body row)) ''Initial version (forked).'') of
                   (wv, Inl versionError) \<Rightarrow>
                     toast_error ''Fork created, but failed to create initial version.''
                       (console_error ''Failed to create initial version for forked prompt:'' wv)
                 | (wv, Inr u) \<Rightarrow> wv)"
    by (auto simp add: forkPrompt_def Let_def)
  moreover have "v_prompt_id (initial_version fid (json_of_body (p_body row)) ''Initial version (forked).'')
                   \<in> dom (prompts w2)"
    using w1 w2 by simp
  ultimately have "wf_world w'" using wf_after_insert_version w2 by simp
  with Inr x show ?thesis by (simp add: world_after_def)
qed

lemma updatePrompt_wf:
  assumes "wf_world w"
  shows "wf_world (world_after (updatePrompt e w i f nts) w)"
proof (cases "updatePrompt e w i f nts")
  case (Inl err)
  with assms show ?thesis by (simp add: world_after_def)
next
  case (Inr x)
  obtain w' row pt where x: "x = (w', row, pt)" by (cases x) auto
  with Inr have r: "updatePrompt e w i f nts = Inr (w', row, pt)" by simp
  then obtain uid where u: "user e = Some uid"
    by (auto simp: updatePrompt_def split: option.splits)
  from r u obtain w1 where s1: "(if has_keys f then update_prompt e w i f else select_prompt e w i) = Inr (w1, row)"
    by (auto simp: updatePrompt_def Let_def split: sum.splits prod.splits)
  have w1: "wf_world w1 \<and> i \<in> dom (prompts w1)"
    using s1 wf_update_prompt[OF assms] wf_select_prompt[OF assms] by (auto split: if_splits)
  let ?wd = "(case delete_prompt_tags e w1 i of
                                      (w', Inl deleteError) \<Rightarrow>
                                        toast_error
                                          ''Error clearing old tags. Tag update may be incomplete.''
                                          (console_error ''Error deleting old prompt_tags:'' w')
                                    | (w', Inr u) \<Rightarrow> w')"
  let ?step2 = "(case nts of
                        None \<Rightarrow> (w1, None)
                      | Some ns \<Rightarrow>
                          let wd = ?wd;
                              (wt, ts) = upsert_and_link_tags e i ns (wd, [])
                          in (wt, Some ts))"
  obtain w2 ptg where s2: "?step2 = (w2, ptg)" by (cases ?step2) auto
  have w2: "wf_world w2"
  proof (cases nts)
    case None
    with s2 w1 show ?thesis by auto
  next
    case (Some ns)
    obtain wx rx where d: "delete_prompt_tags e w1 i = (wx, rx)"
      by (cases "delete_prompt_tags e w1 i") auto
    from wf_delete_prompt_tags[OF _ d] w1 have "wf_world wx" "dom (prompts wx) = dom (prompts w1)"
      by auto
    with d have wd: "wf_world ?wd" "dom (prompts ?wd) = dom (prompts w1)"
      by (cases rx; simp)+
    obtain wt ts where ul: "upsert_and_link_tags e i ns (?wd, []) = (wt, ts)"
      by (cases "upsert_and_link_tags e i ns (?wd, [])") auto
    with s2 Some have "w2 = wt" by (simp add: Let_def)
    moreover from wd w1 have "i \<in> dom (prompts ?wd)" by simp
    from wf_upsert_and_link_tags[OF wd(1) this ul] have "wf_world wt" by simp
    ultimately show ?thesis by simp
  qed
  from r u s1 s2 have "w' = updatePrompt_versioning e w2 i (f_body f) (select_body e w2 i)"
    by (auto simp: updatePrompt_def Let_def)
  moreover have "\<not> body_changed (f_body f) (select_body e w2 i)"
  proof (cases "f_body f")
    case None
    then show ?thesis by simp
  next
    case (Some nb)
    then have hk: "has_keys f" by (simp add: has_keys_def)
    with s1 obtain orig where "prompts w1 = (prompts w)(i \<mapsto> apply_fields f orig)"
      by (auto simp: update_prompt_def split: if_splits option.splits)
    moreover have "prompts w2 = prompts w1"
    proof (cases nts)
      case None
      with s2 show ?thesis by auto
    next
      case (Some ns)
      obtain wt ts where ul: "upsert_and_link_tags e i ns (?wd, []) = (wt, ts)"
        by (cases "upsert_and_link_tags e i ns (?wd, [])") auto
      with s2 Some have "w2 = wt" by (simp add: Let_def)
      moreover have "prompts ?wd = prompts w1" by (simp add: delete_prompt_tags_def)
      ultimately show ?thesis using upsert_and_link_tags_frame[OF ul] by simp
    qed
    ultimately have "select_body e w2 i = None \<or> select_body e w2 i = Some nb"
      using Some by (simp add: select_body_def apply_fields_def)
    with Some show ?thesis by auto
  qed
  ultimately have "w' = w2" by (simp add: updatePrompt_versioning_def)
  with w2 Inr x show ?thesis by (simp add: world_after_def)
qed

text \<open>
  Well-formedness is an invariant of the hook: every mutation leaves a well-formed world
  well-formed, so the worlds the properties above start from are the ones the hook can
  reach.
\<close>

lemma wf_world_preserved:
  assumes "wf_world w"
  shows "wf_world (world_after (createPrompt e w newPrompt newTags) w) \<and>
         wf_world (world_after (updatePrompt e w i updates tagNames) w) \<and>
         wf_world (world_after (forkPrompt e w promptId title) w)"
  using assms createPrompt_wf updatePrompt_wf forkPrompt_wf by blast

end
